theory Spec2Isabelle
  imports Complex_Main
begin

section \<open>Gesture pipeline of the hand-tracking installation\<close>

text \<open>
  The development embeds \<^verbatim>\<open>GestureDetector.predictWebcam\<close> (the per-frame loop), the
  zustand store (\<^verbatim>\<open>useStore\<close>) and the mode buttons of \<^verbatim>\<open>App\<close>.
  A JavaScript \<^verbatim>\<open>number\<close> that holds a coordinate or a distance is a \<^typ>\<open>real\<close>
  (every finite double is one). The frame loop is embedded with exact arithmetic; the
  classification block and the smoother are embedded a second time with their arithmetic
  as a parameter, which can be exact or the rounded arithmetic of IEEE doubles.
  \<^verbatim>\<open>Date.now()\<close> is a whole number of milliseconds, an \<^typ>\<open>int\<close>.
\<close>

subsection \<open>Types\<close>

text \<open>
  Modelled from the spec: the declarations of \<^verbatim>\<open>GestureType\<close>, \<^verbatim>\<open>AppMode\<close>,
  \<^verbatim>\<open>HandData\<close> and \<^verbatim>\<open>PhotoData\<close> (imported from \<^verbatim>\<open>types\<close>) are not among the
  sources. The members are the ones the spec lists and the code uses. The values of
  \<^verbatim>\<open>GestureType\<close> are stored in a \<^verbatim>\<open>string[]\<close> and used as property names; they are
  taken to be distinct strings that are not array indices, so that the properties of the
  counting object are enumerated in the order of their creation.
\<close>

datatype gestureType = NONE | OPEN_HAND | CLOSED_FIST | PINCH | VICTORY | HEART

datatype appMode = TREE | TEXT | SCATTER | LOVE

record handData =
  gesture :: gestureType
  hx :: real
  hy :: real

record photoData =
  photoId :: string
  url :: string
  position :: "real \<times> real \<times> real"
  scatterPosition :: "real \<times> real \<times> real"
  description :: "string option"

text \<open>A landmark of the hand tracker: normalised \<open>x\<close>, \<open>y\<close> and relative depth \<open>z\<close>.\<close>

record landmark =
  lx :: real
  ly :: real
  lz :: real

datatype error = TypeError

subsection \<open>The store\<close>

record appState =
  mode :: appMode
  photos :: "photoData list"
  focusedPhotoId :: "string option"
  handData :: handData

text \<open>An argument of type \<^verbatim>\<open>Partial<HandData>\<close>: every field may be missing.\<close>

record partialHandData =
  pGesture :: "gestureType option"
  pX :: "real option"
  pY :: "real option"

definition useStore :: appState where
  "useStore =
     \<lparr>mode = TREE, photos = [], focusedPhotoId = None,
      handData = \<lparr>gesture = NONE, hx = 0.5, hy = 0.5\<rparr>\<rparr>"

definition setMode :: "appMode \<Rightarrow> appState \<Rightarrow> appState" where
  "setMode m state = state\<lparr>mode := m\<rparr>"

text \<open>
  \<^verbatim>\<open>addPhotos\<close> draws the positions and the id of each new photo at random; the
  photos it generated are an argument here.
\<close>

definition addPhotos :: "photoData list \<Rightarrow> appState \<Rightarrow> appState" where
  "addPhotos newPhotos state = state\<lparr>photos := photos state @ newPhotos\<rparr>"

definition updatePhotoDescription :: "string \<Rightarrow> string \<Rightarrow> appState \<Rightarrow> appState" where
  "updatePhotoDescription i desc state =
     state\<lparr>photos := map (\<lambda>p. if photoId p = i then p\<lparr>description := Some desc\<rparr> else p)
                           (photos state)\<rparr>"

definition setFocusedPhotoId :: "string option \<Rightarrow> appState \<Rightarrow> appState" where
  "setFocusedPhotoId i state = state\<lparr>focusedPhotoId := i\<rparr>"

text \<open>The spread \<^verbatim>\<open>{ ...state.handData, ...data }\<close>: a field of \<open>data\<close> that is present wins.\<close>

definition spread :: "handData \<Rightarrow> partialHandData \<Rightarrow> handData" where
  "spread h d =
     \<lparr>gesture = (case pGesture d of None \<Rightarrow> gesture h | Some g \<Rightarrow> g),
      hx = (case pX d of None \<Rightarrow> hx h | Some v \<Rightarrow> v),
      hy = (case pY d of None \<Rightarrow> hy h | Some v \<Rightarrow> v)\<rparr>"

definition updateHandData :: "partialHandData \<Rightarrow> appState \<Rightarrow> appState" where
  "updateHandData d state = state\<lparr>handData := spread (handData state) d\<rparr>"

subsection \<open>Geometry\<close>

definition lerp :: "real \<Rightarrow> real \<Rightarrow> real \<Rightarrow> real" where
  "lerp start stop t = start * (1 - t) + stop * t"

text \<open>\<^verbatim>\<open>Math.hypot\<close> of two arguments.\<close>

definition hypot :: "real \<Rightarrow> real \<Rightarrow> real" where
  "hypot a b = sqrt (a * a + b * b)"

subsection \<open>Gesture classification\<close>

text \<open>
  The constants and the booleans of the classification block, each as a function of the
  landmark array. Indices: 0 wrist, 4 thumb tip, 8 index tip, 9 middle-finger MCP,
  12 middle tip, 16 ring tip, 20 pinky tip.
\<close>

definition wrist :: "landmark list \<Rightarrow> landmark" where
  "wrist landmarks = landmarks ! 0"

definition thumbTip :: "landmark list \<Rightarrow> landmark" where
  "thumbTip landmarks = landmarks ! 4"

definition indexTip :: "landmark list \<Rightarrow> landmark" where
  "indexTip landmarks = landmarks ! 8"

definition middleFingerMCP :: "landmark list \<Rightarrow> landmark" where
  "middleFingerMCP landmarks = landmarks ! 9"

definition middleTip :: "landmark list \<Rightarrow> landmark" where
  "middleTip landmarks = landmarks ! 12"

definition ringTip :: "landmark list \<Rightarrow> landmark" where
  "ringTip landmarks = landmarks ! 16"

definition pinkyTip :: "landmark list \<Rightarrow> landmark" where
  "pinkyTip landmarks = landmarks ! 20"

definition handSize :: "landmark list \<Rightarrow> real" where
  "handSize landmarks =
     hypot (lx (middleFingerMCP landmarks) - lx (wrist landmarks))
           (ly (middleFingerMCP landmarks) - ly (wrist landmarks))"

definition pinchDist :: "landmark list \<Rightarrow> real" where
  "pinchDist landmarks =
     hypot (lx (thumbTip landmarks) - lx (indexTip landmarks))
           (ly (thumbTip landmarks) - ly (indexTip landmarks))"

definition fingers :: "landmark list \<Rightarrow> landmark list" where
  "fingers landmarks =
     [indexTip landmarks, middleTip landmarks, ringTip landmarks, pinkyTip landmarks]"

definition fingerDistances :: "landmark list \<Rightarrow> real list" where
  "fingerDistances landmarks =
     map (\<lambda>tip. hypot (lx tip - lx (wrist landmarks)) (ly tip - ly (wrist landmarks)))
         (fingers landmarks)"

definition OPEN_RATIO :: real where "OPEN_RATIO = 1.6"
definition FIST_RATIO :: real where "FIST_RATIO = 1.3"
definition PINCH_RATIO :: real where "PINCH_RATIO = 0.5"

definition isOpen :: "landmark list \<Rightarrow> bool" where
  "isOpen landmarks =
     list_all (\<lambda>d. d > handSize landmarks * OPEN_RATIO) (fingerDistances landmarks)"

definition isFist :: "landmark list \<Rightarrow> bool" where
  "isFist landmarks =
     list_all (\<lambda>d. d < handSize landmarks * FIST_RATIO) (fingerDistances landmarks)"

definition isPinch :: "landmark list \<Rightarrow> bool" where
  "isPinch landmarks = (pinchDist landmarks < handSize landmarks * PINCH_RATIO)"

definition indexUp :: "landmark list \<Rightarrow> bool" where
  "indexUp landmarks = (fingerDistances landmarks ! 0 > handSize landmarks * 1.4)"

definition middleUp :: "landmark list \<Rightarrow> bool" where
  "middleUp landmarks = (fingerDistances landmarks ! 1 > handSize landmarks * 1.4)"

definition ringDown :: "landmark list \<Rightarrow> bool" where
  "ringDown landmarks = (fingerDistances landmarks ! 2 < handSize landmarks * 1.2)"

definition pinkyDown :: "landmark list \<Rightarrow> bool" where
  "pinkyDown landmarks = (fingerDistances landmarks ! 3 < handSize landmarks * 1.2)"

definition isVictory :: "landmark list \<Rightarrow> bool" where
  "isVictory landmarks =
     (indexUp landmarks \<and> middleUp landmarks \<and> ringDown landmarks \<and> pinkyDown landmarks)"

definition thumbUp :: "landmark list \<Rightarrow> bool" where
  "thumbUp landmarks =
     (hypot (lx (thumbTip landmarks) - lx (wrist landmarks))
            (ly (thumbTip landmarks) - ly (wrist landmarks)) > handSize landmarks * 0.8)"

definition pinkyUp :: "landmark list \<Rightarrow> bool" where
  "pinkyUp landmarks = (fingerDistances landmarks ! 3 > handSize landmarks * 1.4)"

definition middleDown :: "landmark list \<Rightarrow> bool" where
  "middleDown landmarks = (fingerDistances landmarks ! 1 < handSize landmarks * 1.2)"

definition isLove :: "landmark list \<Rightarrow> bool" where
  "isLove landmarks =
     (thumbUp landmarks \<and> indexUp landmarks \<and> middleDown landmarks \<and> ringDown landmarks
      \<and> pinkyUp landmarks)"

definition detectedGesture :: "landmark list \<Rightarrow> gestureType" where
  "detectedGesture landmarks =
     (if isLove landmarks then HEART
      else if isVictory landmarks then VICTORY
      else if isFist landmarks then CLOSED_FIST
      else if isPinch landmarks then PINCH
      else if isOpen landmarks then OPEN_HAND
      else NONE)"

subsection \<open>Gesture history and the stable gesture\<close>

text \<open>\<^verbatim>\<open>push\<close>, then one \<^verbatim>\<open>shift\<close> when the array has more than 8 entries.\<close>

definition pushHistory :: "gestureType list \<Rightarrow> gestureType \<Rightarrow> gestureType list" where
  "pushHistory history g =
     (let pushed = history @ [g] in if length pushed > 8 then tl pushed else pushed)"

text \<open>
  The counting object, as the list of its properties in creation order:
  \<^verbatim>\<open>acc[curr] = (acc[curr] || 0) + 1\<close> adds one to an existing property in place and
  creates a missing one, with value 1, after all the others.
\<close>

fun increment :: "(gestureType \<times> nat) list \<Rightarrow> gestureType \<Rightarrow> (gestureType \<times> nat) list" where
  "increment [] cur = [(cur, 1)]"
| "increment ((k, c) # acc) cur =
     (if k = cur then (k, c + 1) # acc else (k, c) # increment acc cur)"

definition counts :: "gestureType list \<Rightarrow> (gestureType \<times> nat) list" where
  "counts history = foldl increment [] history"

text \<open>\<^verbatim>\<open>Object.keys\<close>.\<close>

definition keys :: "(gestureType \<times> nat) list \<Rightarrow> gestureType list" where
  "keys cs = map fst cs"

text \<open>
  \<^verbatim>\<open>counts[a] > counts[b]\<close>: a missing property reads \<^verbatim>\<open>undefined\<close>, and a comparison
  with \<^verbatim>\<open>undefined\<close> is false.
\<close>

definition greater :: "nat option \<Rightarrow> nat option \<Rightarrow> bool" where
  "greater a b = (case a of None \<Rightarrow> False | Some m \<Rightarrow> (case b of None \<Rightarrow> False | Some n \<Rightarrow> m > n))"

definition pick :: "(gestureType \<times> nat) list \<Rightarrow> gestureType \<Rightarrow> gestureType \<Rightarrow> gestureType" where
  "pick cs a b = (if greater (map_of cs a) (map_of cs b) then a else b)"

text \<open>
  \<^verbatim>\<open>Array.prototype.reduce\<close> without an initial value: the first element starts the
  accumulator, and an empty array raises a \<^verbatim>\<open>TypeError\<close>.
\<close>

fun reduce :: "('a \<Rightarrow> 'a \<Rightarrow> 'a) \<Rightarrow> 'a list \<Rightarrow> error + 'a" where
  "reduce f [] = Inl TypeError"
| "reduce f (a # bs) = Inr (foldl f a bs)"

definition stableGesture :: "gestureType list \<Rightarrow> error + gestureType" where
  "stableGesture history = reduce (pick (counts history)) (keys (counts history))"

subsection \<open>Mode transitions\<close>

text \<open>
  The block guarded by \<^verbatim>\<open>now - lastGestureTime.current > 600\<close>: the mode to pass to
  \<^verbatim>\<open>setMode\<close>, if any. Every branch that calls \<^verbatim>\<open>setMode\<close> also stores \<open>now\<close>.
\<close>

definition transition :: "gestureType \<Rightarrow> appMode \<Rightarrow> int \<Rightarrow> int \<Rightarrow> appMode option" where
  "transition stableG currentMode now lastGestureTime =
     (if now - lastGestureTime > 600 then
        (if stableG = HEART \<and> currentMode \<noteq> LOVE then Some LOVE
         else if stableG = VICTORY \<and> currentMode \<noteq> TEXT then Some TEXT
         else if stableG = CLOSED_FIST \<and> currentMode \<noteq> TREE then Some TREE
         else if stableG = OPEN_HAND \<and> currentMode \<noteq> SCATTER then Some SCATTER
         else None)
      else None)"

subsection \<open>Cursor smoothing\<close>

definition rawX :: "landmark \<Rightarrow> real" where
  "rawX w = 1 - lx w"

definition rawY :: "landmark \<Rightarrow> real" where
  "rawY w = ly w"

definition distMoved :: "real \<times> real \<Rightarrow> landmark \<Rightarrow> real" where
  "distMoved s w = hypot (rawX w - fst s) (rawY w - snd s)"

definition lerpFactor :: "real \<times> real \<Rightarrow> landmark \<Rightarrow> real" where
  "lerpFactor s w = (if distMoved s w > 0.05 then 0.3 else 0.1)"

text \<open>The new pair \<open>(smoothedX, smoothedY)\<close> from the old one and the wrist landmark.\<close>

definition smooth :: "real \<times> real \<Rightarrow> landmark \<Rightarrow> real \<times> real" where
  "smooth s w =
     (lerp (fst s) (rawX w) (lerpFactor s w), lerp (snd s) (rawY w) (lerpFactor s w))"

subsection \<open>The arithmetic of JavaScript numbers\<close>

text \<open>
  The operations the numeric code uses: \<^verbatim>\<open>+\<close>, \<^verbatim>\<open>-\<close>, \<^verbatim>\<open>*\<close>, \<^verbatim>\<open>Math.hypot\<close> and
  the value a decimal literal such as \<^verbatim>\<open>1.4\<close> denotes. Comparisons are exact in every
  arithmetic.
\<close>

record arithmetic =
  addOp :: "real \<Rightarrow> real \<Rightarrow> real"
  subOp :: "real \<Rightarrow> real \<Rightarrow> real"
  mulOp :: "real \<Rightarrow> real \<Rightarrow> real"
  hypotOp :: "real \<Rightarrow> real \<Rightarrow> real"
  literal :: "real \<Rightarrow> real"

definition exact :: arithmetic where
  "exact = \<lparr>addOp = (+), subOp = (-), mulOp = (*), hypotOp = hypot, literal = (\<lambda>c. c)\<rparr>"

text \<open>
  IEEE 754 binary64, round to nearest, ties to even: \<open>double x\<close> is the double nearest
  to the real \<open>x\<close>. Doubles around \<open>x\<close> are the multiples of \<open>ulp x\<close>, with 53
  significant bits down to the exponent \<open>-1022\<close> and the fixed spacing \<open>2 powr -1074\<close>
  below. Results beyond the largest finite double (infinities) and NaN are not modelled;
  coordinates and distances of a hand never get there.
\<close>

definition roundEven :: "real \<Rightarrow> int" where
  "roundEven x =
     (let f = \<lfloor>x\<rfloor>; r = x - of_int f in
      if r < 1 / 2 then f else if r > 1 / 2 then f + 1 else if even f then f else f + 1)"

definition binade :: "real \<Rightarrow> int" where
  "binade x = \<lfloor>log 2 \<bar>x\<bar>\<rfloor>"

definition ulp :: "real \<Rightarrow> real" where
  "ulp x = 2 powr (of_int (max (binade x) (- 1022)) - 52)"

definition double :: "real \<Rightarrow> real" where
  "double x = (if x = 0 then 0 else of_int (roundEven (x / ulp x)) * ulp x)"

text \<open>
  Half the spacing of the smallest doubles: the largest rounding error near zero.
\<close>

definition eta :: real where
  "eta = 2 powr (- 1075)"

text \<open>
  The arithmetic of the code as it runs: every operation returns the double nearest to
  the exact result, a literal denotes the nearest double. ECMAScript leaves the accuracy
  of \<^verbatim>\<open>Math.hypot\<close> to the implementation, so it is a parameter; \<open>roundedHypot\<close> is
  the correctly rounded one.
\<close>

definition ieee :: "(real \<Rightarrow> real \<Rightarrow> real) \<Rightarrow> arithmetic" where
  "ieee mathHypot =
     \<lparr>addOp = (\<lambda>a b. double (a + b)), subOp = (\<lambda>a b. double (a - b)),
      mulOp = (\<lambda>a b. double (a * b)), hypotOp = mathHypot, literal = double\<rparr>"

definition roundedHypot :: "real \<Rightarrow> real \<Rightarrow> real" where
  "roundedHypot a b = double (hypot a b)"

text \<open>
  \<^verbatim>\<open>lerp\<close> and the smoothing block (lines 210 to 217) in a given arithmetic.
\<close>

definition lerpIn :: "arithmetic \<Rightarrow> real \<Rightarrow> real \<Rightarrow> real \<Rightarrow> real" where
  "lerpIn a start stop t = addOp a (mulOp a start (subOp a 1 t)) (mulOp a stop t)"

definition smoothIn :: "arithmetic \<Rightarrow> real \<times> real \<Rightarrow> landmark \<Rightarrow> real \<times> real" where
  "smoothIn a s w =
     (let rawX = subOp a 1 (lx w);
          rawY = ly w;
          distMoved = hypotOp a (subOp a rawX (fst s)) (subOp a rawY (snd s));
          lerpFactor = (if distMoved > literal a 0.05 then literal a 0.3 else literal a 0.1)
      in (lerpIn a (fst s) rawX lerpFactor, lerpIn a (snd s) rawY lerpFactor))"

text \<open>
  The classification block (lines 129 to 177) in a given arithmetic, in the order of the
  source.
\<close>

definition detectedGestureIn :: "arithmetic \<Rightarrow> landmark list \<Rightarrow> gestureType" where
  "detectedGestureIn a landmarks =
     (let indexTip = landmarks ! 8;
          thumbTip = landmarks ! 4;
          wrist = landmarks ! 0;
          middleTip = landmarks ! 12;
          ringTip = landmarks ! 16;
          pinkyTip = landmarks ! 20;
          middleFingerMCP = landmarks ! 9;
          handSize = hypotOp a (subOp a (lx middleFingerMCP) (lx wrist))
                               (subOp a (ly middleFingerMCP) (ly wrist));
          pinchDist = hypotOp a (subOp a (lx thumbTip) (lx indexTip))
                                (subOp a (ly thumbTip) (ly indexTip));
          fingers = [indexTip, middleTip, ringTip, pinkyTip];
          fingerDistances =
            map (\<lambda>tip. hypotOp a (subOp a (lx tip) (lx wrist)) (subOp a (ly tip) (ly wrist)))
                fingers;
          isOpen = list_all (\<lambda>d. d > mulOp a handSize (literal a 1.6)) fingerDistances;
          isFist = list_all (\<lambda>d. d < mulOp a handSize (literal a 1.3)) fingerDistances;
          isPinch = (pinchDist < mulOp a handSize (literal a 0.5));
          indexUp = (fingerDistances ! 0 > mulOp a handSize (literal a 1.4));
          middleUp = (fingerDistances ! 1 > mulOp a handSize (literal a 1.4));
          ringDown = (fingerDistances ! 2 < mulOp a handSize (literal a 1.2));
          pinkyDown = (fingerDistances ! 3 < mulOp a handSize (literal a 1.2));
          isVictory = (indexUp \<and> middleUp \<and> ringDown \<and> pinkyDown);
          thumbUp = (hypotOp a (subOp a (lx thumbTip) (lx wrist)) (subOp a (ly thumbTip) (ly wrist))
                       > mulOp a handSize (literal a 0.8));
          pinkyUp = (fingerDistances ! 3 > mulOp a handSize (literal a 1.4));
          middleDown = (fingerDistances ! 1 < mulOp a handSize (literal a 1.2));
          isLove = (thumbUp \<and> indexUp \<and> middleDown \<and> ringDown \<and> pinkyUp)
      in if isLove then HEART
         else if isVictory then VICTORY
         else if isFist then CLOSED_FIST
         else if isPinch then PINCH
         else if isOpen then OPEN_HAND
         else NONE)"

subsection \<open>The frame loop\<close>

text \<open>The refs of the component.\<close>

record refs =
  smoothedX :: real
  smoothedY :: real
  gestureHistory :: "gestureType list"
  lastGestureTime :: int
  lastVideoTime :: real

definition initialRefs :: refs where
  "initialRefs =
     \<lparr>smoothedX = 0.5, smoothedY = 0.5, gestureHistory = [], lastGestureTime = 0,
      lastVideoTime = - 1\<rparr>"

text \<open>
  What one call of \<^verbatim>\<open>predictWebcam\<close> reads from its environment: whether the
  landmarker, the video and the canvas exist, the size and the time of the video, whether
  the canvas gave a 2D context, the hands in the detection result
  (\<^verbatim>\<open>results.landmarks\<close>, empty when missing), and \<^verbatim>\<open>Date.now()\<close>.
\<close>

record frame =
  ready :: bool
  videoWidth :: nat
  videoHeight :: nat
  currentTime :: real
  hasCtx :: bool
  hands :: "landmark list list"
  dateNow :: int

text \<open>
  The branch for a detected hand. A landmark array shorter than 21 makes
  \<^verbatim>\<open>landmarks[20]\<close> undefined, and reading its \<^verbatim>\<open>x\<close> raises before anything is stored.
\<close>

definition handPresent :: "landmark list \<Rightarrow> int \<Rightarrow> refs \<times> appState \<Rightarrow> error + refs \<times> appState" where
  "handPresent landmarks now rs =
     (let r = fst rs; state = snd rs in
      if length landmarks < 21 then Inl TypeError
      else
        let history = pushHistory (gestureHistory r) (detectedGesture landmarks) in
        case stableGesture history of
          Inl e \<Rightarrow> Inl e
        | Inr stableG \<Rightarrow>
            let currentMode = mode state;
                committed = transition stableG currentMode now (lastGestureTime r);
                state1 = (case committed of None \<Rightarrow> state | Some m \<Rightarrow> setMode m state);
                lastTime = (case committed of None \<Rightarrow> lastGestureTime r | Some m \<Rightarrow> now);
                s = smooth (smoothedX r, smoothedY r) (wrist landmarks);
                state2 = updateHandData
                           \<lparr>pGesture = Some stableG, pX = Some (fst s), pY = Some (snd s)\<rparr> state1
            in Inr (r\<lparr>smoothedX := fst s, smoothedY := snd s, gestureHistory := history,
                      lastGestureTime := lastTime\<rparr>, state2))"

text \<open>The branch for no hand: only \<^verbatim>\<open>updateHandData({ gesture: GestureType.NONE })\<close>.\<close>

definition handAbsent :: "refs \<times> appState \<Rightarrow> error + refs \<times> appState" where
  "handAbsent rs =
     Inr (fst rs, updateHandData \<lparr>pGesture = Some NONE, pX = None, pY = None\<rparr> (snd rs))"

definition predictWebcam :: "frame \<Rightarrow> refs \<times> appState \<Rightarrow> error + refs \<times> appState" where
  "predictWebcam f rs =
     (if \<not> ready f then Inr rs
      else if videoWidth f = 0 \<or> videoHeight f = 0 then Inr rs
      else if currentTime f \<noteq> lastVideoTime (fst rs) then
        (let rs1 = ((fst rs)\<lparr>lastVideoTime := currentTime f\<rparr>, snd rs) in
         if hasCtx f then
           (case hands f of
              [] \<Rightarrow> handAbsent rs1
            | landmarks # others \<Rightarrow> handPresent landmarks (dateNow f) rs1)
         else Inr rs1)
      else Inr rs)"

text \<open>
  The request for the next animation frame at the end of \<^verbatim>\<open>predictWebcam\<close> changes
  none of the refs and nothing in the store; it is left out.
\<close>

text \<open>A call that gets as far as looking at the detection result.\<close>

definition processed :: "frame \<Rightarrow> refs \<Rightarrow> bool" where
  "processed f r =
     (ready f \<and> videoWidth f \<noteq> 0 \<and> videoHeight f \<noteq> 0 \<and> currentTime f \<noteq> lastVideoTime r
      \<and> hasCtx f)"

subsection \<open>Everything that writes to the store\<close>

text \<open>
  The store is written by the frame loop and by the handlers of the user interface: the
  three mode buttons of \<^verbatim>\<open>App\<close> (\<^verbatim>\<open>onClick={() => setMode(AppMode.TREE)}\<close> and its
  two siblings), the file input (\<^verbatim>\<open>addPhotos\<close>) and the photo cloud
  (\<^verbatim>\<open>setFocusedPhotoId\<close>, \<^verbatim>\<open>updatePhotoDescription\<close>).
\<close>

datatype event =
    Frame frame
  | ClickTree
  | ClickText
  | ClickScatter
  | Upload "photoData list"
  | Focus "string option"
  | Describe string string

fun step :: "event \<Rightarrow> refs \<times> appState \<Rightarrow> error + refs \<times> appState" where
  "step (Frame f) rs = predictWebcam f rs"
| "step ClickTree rs = Inr (fst rs, setMode TREE (snd rs))"
| "step ClickText rs = Inr (fst rs, setMode TEXT (snd rs))"
| "step ClickScatter rs = Inr (fst rs, setMode SCATTER (snd rs))"
| "step (Upload newPhotos) rs = Inr (fst rs, addPhotos newPhotos (snd rs))"
| "step (Focus i) rs = Inr (fst rs, setFocusedPhotoId i (snd rs))"
| "step (Describe i desc) rs = Inr (fst rs, updatePhotoDescription i desc (snd rs))"

text \<open>A sequence of events; an exception ends it.\<close>

fun run :: "event list \<Rightarrow> refs \<times> appState \<Rightarrow> error + refs \<times> appState" where
  "run [] rs = Inr rs"
| "run (e # es) rs = (case step e rs of Inl err \<Rightarrow> Inl err | Inr rs' \<Rightarrow> run es rs')"

subsection \<open>The specification's wording\<close>

text \<open>
  The definitions of this subsection follow the specification, not the code; the theorems
  below compare the two.
\<close>

text \<open>
  The Euclidean distance of two landmarks, which have three coordinates.
\<close>

definition distance3 :: "landmark \<Rightarrow> landmark \<Rightarrow> real" where
  "distance3 p q = sqrt ((lx p - lx q)\<^sup>2 + (ly p - ly q)\<^sup>2 + (lz p - lz q)\<^sup>2)"

text \<open>
  The distance of two landmarks in the image plane (the depth \<open>z\<close> plays no part), exact
  and as computed in a given arithmetic.
\<close>

definition planarDistance :: "landmark \<Rightarrow> landmark \<Rightarrow> real" where
  "planarDistance p q = sqrt ((lx p - lx q)\<^sup>2 + (ly p - ly q)\<^sup>2)"

definition planarIn :: "arithmetic \<Rightarrow> landmark \<Rightarrow> landmark \<Rightarrow> real" where
  "planarIn a p q = hypotOp a (subOp a (lx p) (lx q)) (subOp a (ly p) (ly q))"

definition heartSpec :: "real \<Rightarrow> real \<Rightarrow> real list \<Rightarrow> bool" where
  "heartSpec hsize thumbDist d =
     (thumbDist > 0.8 * hsize \<and> d ! 0 > 1.4 * hsize \<and> d ! 1 < 1.2 * hsize \<and> d ! 2 < 1.2 * hsize
      \<and> d ! 3 > 1.4 * hsize)"

definition victorySpec :: "real \<Rightarrow> real list \<Rightarrow> bool" where
  "victorySpec hsize d =
     (d ! 0 > 1.4 * hsize \<and> d ! 1 > 1.4 * hsize \<and> d ! 2 < 1.2 * hsize \<and> d ! 3 < 1.2 * hsize)"

definition closedFistSpec :: "real \<Rightarrow> real list \<Rightarrow> bool" where
  "closedFistSpec hsize d =
     (d ! 0 < 1.3 * hsize \<and> d ! 1 < 1.3 * hsize \<and> d ! 2 < 1.3 * hsize \<and> d ! 3 < 1.3 * hsize)"

definition pinchSpec :: "real \<Rightarrow> real \<Rightarrow> bool" where
  "pinchSpec hsize pinch = (pinch < 0.5 * hsize)"

definition openHandSpec :: "real \<Rightarrow> real list \<Rightarrow> bool" where
  "openHandSpec hsize d =
     (d ! 0 > 1.6 * hsize \<and> d ! 1 > 1.6 * hsize \<and> d ! 2 > 1.6 * hsize \<and> d ! 3 > 1.6 * hsize)"

definition classifierSpec :: "real \<Rightarrow> real \<Rightarrow> real \<Rightarrow> real list \<Rightarrow> gestureType" where
  "classifierSpec hsize thumbDist pinch d =
     (if heartSpec hsize thumbDist d then HEART
      else if victorySpec hsize d then VICTORY
      else if closedFistSpec hsize d then CLOSED_FIST
      else if pinchSpec hsize pinch then PINCH
      else if openHandSpec hsize d then OPEN_HAND
      else NONE)"

text \<open>
  The same priority chain with the product \<open>c \<cdot> handSize\<close> as a parameter, so that it
  can be the rounded product the code computes.
\<close>

definition classifierWith ::
  "(real \<Rightarrow> real \<Rightarrow> real) \<Rightarrow> real \<Rightarrow> real \<Rightarrow> real \<Rightarrow> real list \<Rightarrow> gestureType" where
  "classifierWith scale hsize thumbDist pinch d =
     (if thumbDist > scale 0.8 hsize \<and> d ! 0 > scale 1.4 hsize \<and> d ! 1 < scale 1.2 hsize
         \<and> d ! 2 < scale 1.2 hsize \<and> d ! 3 > scale 1.4 hsize then HEART
      else if d ! 0 > scale 1.4 hsize \<and> d ! 1 > scale 1.4 hsize \<and> d ! 2 < scale 1.2 hsize
         \<and> d ! 3 < scale 1.2 hsize then VICTORY
      else if d ! 0 < scale 1.3 hsize \<and> d ! 1 < scale 1.3 hsize \<and> d ! 2 < scale 1.3 hsize
         \<and> d ! 3 < scale 1.3 hsize then CLOSED_FIST
      else if pinch < scale 0.5 hsize then PINCH
      else if d ! 0 > scale 1.6 hsize \<and> d ! 1 > scale 1.6 hsize \<and> d ! 2 > scale 1.6 hsize
         \<and> d ! 3 > scale 1.6 hsize then OPEN_HAND
      else NONE)"

text \<open>The transition table, and the condition under which a transition is committed.\<close>

fun targetMode :: "gestureType \<Rightarrow> appMode option" where
  "targetMode HEART = Some LOVE"
| "targetMode VICTORY = Some TEXT"
| "targetMode CLOSED_FIST = Some TREE"
| "targetMode OPEN_HAND = Some SCATTER"
| "targetMode PINCH = None"
| "targetMode NONE = None"

definition commits :: "gestureType \<Rightarrow> appMode \<Rightarrow> int \<Rightarrow> int \<Rightarrow> bool" where
  "commits g current now lastTransitionAtMs =
     (now - lastTransitionAtMs > 600
      \<and> (case targetMode g of None \<Rightarrow> False | Some target \<Rightarrow> target \<noteq> current))"

text \<open>Position of the first occurrence of a gesture in a window, scanned oldest first.\<close>

definition firstIndex :: "gestureType list \<Rightarrow> gestureType \<Rightarrow> nat" where
  "firstIndex window g = length (takeWhile (\<lambda>x. x \<noteq> g) window)"


subsection \<open>Example inputs\<close>

text \<open>
  Hands held upright in the middle of the picture: every landmark has \<open>x = 0.5\<close>, the
  wrist is at height 0.9 and the middle-finger MCP at 0.8, so the hand size is 0.1.
  \<open>upright thumb index middle ring pinky\<close> puts the five tips at the given heights.
\<close>

definition point :: "real \<Rightarrow> landmark" where
  "point v = \<lparr>lx = 0.5, ly = v, lz = 0\<rparr>"

definition upright :: "real \<Rightarrow> real \<Rightarrow> real \<Rightarrow> real \<Rightarrow> real \<Rightarrow> landmark list" where
  "upright thumb index middle ring pinky =
     [point 0.9, point 0.9, point 0.9, point 0.9, point thumb,
      point 0.8, point 0.8, point 0.8, point index,
      point 0.8, point 0.8, point 0.8, point middle,
      point 0.8, point 0.8, point 0.8, point ring,
      point 0.8, point 0.8, point 0.8, point pinky]"

definition openHand :: "landmark list" where
  "openHand = upright 0.8 0.7 0.7 0.7 0.7"

definition fist :: "landmark list" where
  "fist = upright 0.8 0.85 0.85 0.85 0.85"

definition cameraFrame :: "real \<Rightarrow> int \<Rightarrow> landmark list list \<Rightarrow> frame" where
  "cameraFrame t now hs =
     \<lparr>ready = True, videoWidth = 640, videoHeight = 480, currentTime = t, hasCtx = True,
      hands = hs, dateNow = now\<rparr>"

text \<open>
  A hand whose fingers point at the camera: wrist at height 0.8, knuckles at 0.5, and the
  four finger tips straight in front of the knuckles, 0.4 nearer to the camera. In the
  picture the tips are one hand size (0.3) from the wrist, in space they are 0.5 away.
\<close>

definition point3 :: "real \<Rightarrow> real \<Rightarrow> landmark" where
  "point3 v d = \<lparr>lx = 0.5, ly = v, lz = d\<rparr>"

definition pointing :: "landmark list" where
  "pointing =
     [point3 0.8 0, point3 0.8 0, point3 0.8 0, point3 0.8 0, point3 0.8 0,
      point3 0.5 0, point3 0.5 0, point3 0.5 0, point3 0.5 (- 0.4),
      point3 0.5 0, point3 0.5 0, point3 0.5 0, point3 0.5 (- 0.4),
      point3 0.5 0, point3 0.5 0, point3 0.5 0, point3 0.5 (- 0.4),
      point3 0.5 0, point3 0.5 0, point3 0.5 0, point3 0.5 (- 0.4)]"

text \<open>
  A state in which the window holds HEART eight times and HEART was published with the
  cursor at \<open>(0.25, 0.75)\<close>.
\<close>

definition afterHeart :: "refs \<times> appState" where
  "afterHeart =
     (\<lparr>smoothedX = 0.25, smoothedY = 0.75, gestureHistory = replicate 8 HEART,
       lastGestureTime = 1000, lastVideoTime = 0\<rparr>,
      \<lparr>mode = LOVE, photos = [], focusedPhotoId = None,
       handData = \<lparr>gesture = HEART, hx = 0.25, hy = 0.75\<rparr>\<rparr>)"

section \<open>Lemmas\<close>

subsection \<open>Counting and the plurality vote\<close>

lemma counts_snoc: "counts (h @ [g]) = increment (counts h) g"
  by (simp add: counts_def)

lemma map_of_increment:
  "map_of (increment acc g) k =
     (if k = g then Some (case map_of acc g of None \<Rightarrow> 1 | Some c \<Rightarrow> c + 1) else map_of acc k)"
  by (induction acc g rule: increment.induct) auto

lemma keys_increment:
  "keys (increment acc g) = (if g \<in> set (keys acc) then keys acc else keys acc @ [g])"
  by (induction acc g rule: increment.induct) (auto simp: keys_def)

lemma map_of_counts:
  "map_of (counts h) k = (if k \<in> set h then Some (count_list h k) else None)"
proof (induction h rule: rev_induct)
  case Nil
  show ?case by (simp add: counts_def)
next
  case (snoc g h)
  then show ?case by (auto simp: counts_snoc map_of_increment)
qed

lemma set_keys_counts: "set (keys (counts h)) = set h"
proof (induction h rule: rev_induct)
  case Nil
  show ?case by (simp add: counts_def keys_def)
next
  case (snoc g h)
  then show ?case by (auto simp: counts_snoc keys_increment)
qed

lemma keys_counts_snoc:
  "keys (counts (h @ [g])) = (if g \<in> set h then keys (counts h) else keys (counts h) @ [g])"
  by (simp add: counts_snoc keys_increment set_keys_counts)

lemma firstIndex_snoc_mem: "k \<in> set h \<Longrightarrow> firstIndex (h @ [g]) k = firstIndex h k"
  by (simp add: firstIndex_def takeWhile_append1)
  
lemma firstIndex_lt: "k \<in> set h \<Longrightarrow> firstIndex h k < length h"
  by (induction h) (auto simp: firstIndex_def)

lemma firstIndex_snoc_new: "g \<notin> set h \<Longrightarrow> firstIndex (h @ [g]) g = length h"
  by (induction h) (auto simp: firstIndex_def)

lemma keys_counts_sorted:
  "sorted_wrt (\<lambda>a b. firstIndex h a < firstIndex h b) (keys (counts h))"
proof (induction h rule: rev_induct)
  case Nil
  show ?case by (simp add: counts_def keys_def)
next
  case (snoc g h)
  have mono: "sorted_wrt (\<lambda>a b. firstIndex (h @ [g]) a < firstIndex (h @ [g]) b) (keys (counts h))"
    using snoc
    by (rule sorted_wrt_mono_rel[rotated]) (simp add: set_keys_counts firstIndex_snoc_mem)
  show ?case
  proof (cases "g \<in> set h")
    case True
    then show ?thesis using mono by (simp add: keys_counts_snoc)
  next
    case False
    then show ?thesis using mono
      by (simp add: keys_counts_snoc sorted_wrt_append set_keys_counts firstIndex_snoc_mem
          firstIndex_snoc_new firstIndex_lt)
  qed
qed

lemma foldl_pick_split:
  assumes "\<forall>k\<in>set (a # bs). map_of cs k = Some (c k)"
  shows "\<exists>pre post. a # bs = pre @ foldl (pick cs) a bs # post
           \<and> (\<forall>k\<in>set pre. c k \<le> c (foldl (pick cs) a bs))
           \<and> (\<forall>k\<in>set post. c k < c (foldl (pick cs) a bs))"
  using assms
proof (induction bs rule: rev_induct)
  case Nil
  show ?case by (intro exI[of _ "[]"]) simp
next
  case (snoc b bs)
  let ?r = "foldl (pick cs) a bs"
  from snoc obtain pre post where split: "a # bs = pre @ ?r # post"
    and pre: "\<forall>k\<in>set pre. c k \<le> c ?r" and post: "\<forall>k\<in>set post. c k < c ?r"
    by auto
  have rin: "?r \<in> set (a # bs)" by (subst split) simp
  have mr: "map_of cs ?r = Some (c ?r)" using snoc.prems rin by auto
  have mb: "map_of cs b = Some (c b)" using snoc.prems by simp
  show ?case
  proof (cases "c ?r > c b")
    case True
    then have eq: "foldl (pick cs) a (bs @ [b]) = ?r"
      by (simp add: pick_def greater_def mr mb)
    have "a # bs @ [b] = pre @ ?r # (post @ [b])" using split by simp
    then show ?thesis unfolding eq using pre post True
      by (intro exI[of _ pre] exI[of _ "post @ [b]"]) auto
  next
    case False
    then have eq: "foldl (pick cs) a (bs @ [b]) = b"
      by (simp add: pick_def greater_def mr mb)
    have all: "\<forall>k\<in>set (a # bs). c k \<le> c b"
    proof
      fix k assume "k \<in> set (a # bs)"
      then have "k \<in> set (pre @ ?r # post)" using split by simp
      then have "c k \<le> c ?r" using pre post by auto
      then show "c k \<le> c b" using False by simp
    qed
    show ?thesis unfolding eq using all
      by (intro exI[of _ "a # bs"] exI[of _ "[]"]) auto
  qed
qed

lemma length_pushHistory: "length h \<le> 8 \<Longrightarrow> length (pushHistory h g) \<le> 8"
  by (simp add: pushHistory_def Let_def)

lemma pushHistory_nonempty: "pushHistory h g \<noteq> []"
  by (cases h) (simp_all add: pushHistory_def Let_def)

lemma pushHistory_full: "length xs = 8 \<Longrightarrow> pushHistory xs g = tl (xs @ [g])"
  by (simp add: pushHistory_def Let_def)

lemma pushHistory_short: "length xs < 8 \<Longrightarrow> pushHistory xs g = xs @ [g]"
  by (simp add: pushHistory_def Let_def)

lemma foldl_pushHistory:
  "length h \<le> 8 \<Longrightarrow>
   foldl pushHistory h gs = drop (length h + length gs - 8) (h @ gs)"
proof (induction gs rule: rev_induct)
  case Nil
  then show ?case by simp
next
  case (snoc g gs)
  define n where "n = length h + length gs"
  define xs where "xs = drop (n - 8) (h @ gs)"
  have w: "foldl pushHistory h gs = xs" using snoc by (simp add: xs_def n_def)
  have len: "length (h @ gs) = n" by (simp add: n_def)
  have app: "xs @ [g] = drop (n - 8) ((h @ gs) @ [g])"
    unfolding xs_def using len by (subst drop_append) simp
  show ?case
  proof (cases "n \<ge> 8")
    case True
    then have "length xs = 8" unfolding xs_def using len by simp
    then have "pushHistory xs g = tl (xs @ [g])" by (rule pushHistory_full)
    also have "\<dots> = drop (Suc (n - 8)) ((h @ gs) @ [g])"
      unfolding app by (simp only: drop_Suc tl_drop)
    also have "Suc (n - 8) = length h + length (gs @ [g]) - 8" using True by (simp add: n_def)
    finally show ?thesis using w by simp
  next
    case False
    then have "length xs < 8" unfolding xs_def using len by simp
    then have "pushHistory xs g = xs @ [g]" by (rule pushHistory_short)
    moreover have "length h + length (gs @ [g]) - 8 = 0" "n - 8 = 0" using False by (simp_all add: n_def)
    ultimately show ?thesis using w app by simp
  qed
qed

lemma stableGesture_plurality:
  assumes "w \<noteq> []"
  shows "\<exists>r. stableGesture w = Inr r \<and> r \<in> set w
           \<and> (\<forall>k. count_list w k \<le> count_list w r)
           \<and> (\<forall>k\<in>set w. k \<noteq> r \<and> count_list w k = count_list w r
                  \<longrightarrow> firstIndex w k < firstIndex w r)"
proof -
  from assms have "keys (counts w) \<noteq> []"
    using set_keys_counts[of w] by auto
  then obtain a bs where ks: "keys (counts w) = a # bs" by (cases "keys (counts w)") auto
  let ?r = "foldl (pick (counts w)) a bs"
  have st: "stableGesture w = Inr ?r" by (simp add: stableGesture_def ks)
  have "\<forall>k\<in>set (a # bs). map_of (counts w) k = Some (count_list w k)"
    using set_keys_counts[of w] ks by (simp add: map_of_counts)
  from foldl_pick_split[OF this] obtain pre post where split: "a # bs = pre @ ?r # post"
    and pre: "\<forall>k\<in>set pre. count_list w k \<le> count_list w ?r"
    and post: "\<forall>k\<in>set post. count_list w k < count_list w ?r"
    by blast
  have setw: "set w = set pre \<union> {?r} \<union> set post"
    proof -
    have "set w = set (a # bs)" using set_keys_counts[of w] ks by simp
    also have "\<dots> = set (pre @ ?r # post)" using split by simp
    finally show ?thesis by auto
  qed
  have rin: "?r \<in> set w" using setw by simp
  have maxc: "count_list w k \<le> count_list w ?r" for k
  proof (cases "k \<in> set w")
    case True
    then show ?thesis using setw pre post by auto
  next
    case False
    then show ?thesis by (simp add: count_list_0_iff)
  qed
  have srt: "sorted_wrt (\<lambda>a b. firstIndex w a < firstIndex w b) (pre @ ?r # post)"
    using keys_counts_sorted[of w] ks split by simp
  have tie: "firstIndex w k < firstIndex w ?r"
    if "k \<in> set w" "k \<noteq> ?r" "count_list w k = count_list w ?r" for k
  proof -
    from that setw post have "k \<in> set pre" by auto
    then show ?thesis using srt by (simp add: sorted_wrt_append)
  qed
  show ?thesis using st rin maxc tie by blast
qed

lemma stable_replicate: "0 < n \<Longrightarrow> stableGesture (replicate n G) = Inr G"
proof -
  assume n: "0 < n"
  then have ne: "replicate n G \<noteq> []" by simp
  from stableGesture_plurality[OF ne] obtain r where "stableGesture (replicate n G) = Inr r" "r \<in> set (replicate n G)"
    by blast
  then show ?thesis by simp
qed



lemma foldl_pushHistory_eight:
  assumes "length h \<le> 8" and "length gs = 8"
  shows "foldl pushHistory h gs = gs"
  using foldl_pushHistory [OF assms(1), of gs] assms(2) by simp

lemma stableGesture_five_three: "stableGesture [A, A, A, A, A, B, B, B] = Inr A"
proof -
  let ?w = "[A, A, A, A, A, B, B, B]"
  have "?w \<noteq> []" by simp
  from stableGesture_plurality[OF this] obtain r where st: "stableGesture ?w = Inr r"
    and rin: "r \<in> set ?w" and mx: "count_list ?w A \<le> count_list ?w r"
    by blast
  have "r = A"
  proof (rule ccontr)
    assume "r \<noteq> A"
    with rin have "r = B" "A \<noteq> B" by auto
    with mx show False by simp
  qed
  with st show ?thesis by simp
qed

subsection \<open>Distances\<close>

lemma hypot_nonneg: "0 \<le> hypot a b"
  by (simp add: hypot_def)

lemma hypot_zero_left: "hypot 0 b = \<bar>b\<bar>"
  by (simp add: hypot_def)

lemma hypot_scale: "0 \<le> c \<Longrightarrow> hypot (c * a) (c * b) = c * hypot a b"
proof -
  assume c: "0 \<le> c"
  have "(c * a) * (c * a) + (c * b) * (c * b) = c\<^sup>2 * (a * a + b * b)"
    by (simp add: power2_eq_square algebra_simps)
  then show ?thesis using c by (simp add: hypot_def real_sqrt_mult)
qed

lemma hypot_distance: "hypot (lx p - lx q) (ly p - ly q) = planarDistance q p"
  by (simp add: hypot_def planarDistance_def power2_eq_square algebra_simps)

lemma hypot_distance': "hypot (lx p - lx q) (ly p - ly q) = planarDistance p q"
  by (simp add: hypot_def planarDistance_def power2_eq_square algebra_simps)

lemma fingerDistances_nth:
  "fingerDistances l ! 0 = planarDistance (l ! 0) (l ! 8)"
  "fingerDistances l ! 1 = planarDistance (l ! 0) (l ! 12)"
  "fingerDistances l ! Suc 0 = planarDistance (l ! 0) (l ! 12)"
  "fingerDistances l ! 2 = planarDistance (l ! 0) (l ! 16)"
  "fingerDistances l ! 3 = planarDistance (l ! 0) (l ! 20)"
  by (simp_all add: fingerDistances_def fingers_def hypot_distance wrist_def indexTip_def
      middleTip_def ringTip_def pinkyTip_def)

lemma fingerDistances_list:
  "fingerDistances l = [fingerDistances l ! 0, fingerDistances l ! 1, fingerDistances l ! 2, fingerDistances l ! 3]"
  by (simp add: fingerDistances_def fingers_def)


lemmas classification =
  detectedGesture_def isLove_def isVictory_def isFist_def isPinch_def isOpen_def
  thumbUp_def indexUp_def middleUp_def middleDown_def ringDown_def pinkyDown_def pinkyUp_def
  fingerDistances_def fingers_def handSize_def pinchDist_def wrist_def thumbTip_def
  indexTip_def middleTip_def ringTip_def pinkyTip_def middleFingerMCP_def
  OPEN_RATIO_def FIST_RATIO_def PINCH_RATIO_def

lemmas examples = openHand_def fist_def upright_def point_def cameraFrame_def afterHeart_def

lemma detectedGesture_openHand: "detectedGesture openHand = OPEN_HAND"
  by (simp add: classification examples hypot_zero_left)

lemma detectedGesture_fist: "detectedGesture fist = CLOSED_FIST"
  by (simp add: classification examples hypot_zero_left)

lemma length_examples: "length openHand = 21" "length fist = 21"
  by (simp_all add: examples)

subsection \<open>The frame loop, case by case\<close>

lemma stableGesture_push_ex: "\<exists>stableG. stableGesture (pushHistory h g) = Inr stableG"
  using stableGesture_plurality [OF pushHistory_nonempty, of h g] by blast

lemma stableGesture_single: "stableGesture [g] = Inr g"
  by (simp add: stableGesture_def counts_def keys_def)

lemma handPresent_short: "length landmarks < 21 \<Longrightarrow> handPresent landmarks now rs = Inl TypeError"
  by (simp add: handPresent_def Let_def)

lemma handPresent_result:
  assumes "21 \<le> length landmarks"
    and "stableGesture (pushHistory (gestureHistory r) (detectedGesture landmarks)) = Inr stableG"
  shows "handPresent landmarks now (r, st) =
     Inr (r\<lparr>smoothedX := fst (smooth (smoothedX r, smoothedY r) (wrist landmarks)),
            smoothedY := snd (smooth (smoothedX r, smoothedY r) (wrist landmarks)),
            gestureHistory := pushHistory (gestureHistory r) (detectedGesture landmarks),
            lastGestureTime :=
              (case transition stableG (mode st) now (lastGestureTime r) of
                 None \<Rightarrow> lastGestureTime r | Some m \<Rightarrow> now)\<rparr>,
          updateHandData
            \<lparr>pGesture = Some stableG,
             pX = Some (fst (smooth (smoothedX r, smoothedY r) (wrist landmarks))),
             pY = Some (snd (smooth (smoothedX r, smoothedY r) (wrist landmarks)))\<rparr>
            (case transition stableG (mode st) now (lastGestureTime r) of
               None \<Rightarrow> st | Some m \<Rightarrow> setMode m st))"
  using assms by (simp add: handPresent_def Let_def)

lemma predictWebcam_absent:
  assumes "processed f r" and "hands f = []"
  shows "predictWebcam f (r, st) =
     Inr (r\<lparr>lastVideoTime := currentTime f\<rparr>,
          updateHandData \<lparr>pGesture = Some NONE, pX = None, pY = None\<rparr> st)"
  using assms by (simp add: predictWebcam_def processed_def handAbsent_def Let_def)

lemma predictWebcam_present:
  assumes "processed f r" and "hands f = landmarks # others"
  shows "predictWebcam f (r, st) =
     handPresent landmarks (dateNow f) (r\<lparr>lastVideoTime := currentTime f\<rparr>, st)"
  using assms by (simp add: predictWebcam_def processed_def Let_def)

lemma predictWebcam_skipped:
  assumes "\<not> processed f r"
  shows "predictWebcam f (r, st) = Inr (r, st)
       \<or> predictWebcam f (r, st) = Inr (r\<lparr>lastVideoTime := currentTime f\<rparr>, st)"
  using assms by (auto simp: predictWebcam_def processed_def Let_def)


lemma transition_commits:
  "transition g current now lastT = (if commits g current now lastT then targetMode g else None)"
  by (cases g; cases current) (simp_all add: transition_def commits_def)

text \<open>Everything a call of \<^verbatim>\<open>predictWebcam\<close> that returns can have done.\<close>

lemma predictWebcam_cases:
  assumes "predictWebcam f (r, st) = Inr (r', st')"
  shows "(\<not> processed f r \<and> st' = st \<and> (r' = r \<or> r' = r\<lparr>lastVideoTime := currentTime f\<rparr>))
       \<or> (processed f r \<and> hands f = []
          \<and> r' = r\<lparr>lastVideoTime := currentTime f\<rparr>
          \<and> st' = updateHandData \<lparr>pGesture = Some NONE, pX = None, pY = None\<rparr> st)
       \<or> (\<exists>landmarks others stableG.
            processed f r \<and> hands f = landmarks # others \<and> 21 \<le> length landmarks
          \<and> stableGesture (pushHistory (gestureHistory r) (detectedGesture landmarks)) = Inr stableG
          \<and> handPresent landmarks (dateNow f) (r\<lparr>lastVideoTime := currentTime f\<rparr>, st) = Inr (r', st'))"
proof (cases "processed f r")
  case False
  from predictWebcam_skipped [OF False, of st] assms show ?thesis using False by auto
next
  case True
  show ?thesis
  proof (cases "hands f")
    case Nil
    from predictWebcam_absent [OF True Nil, of st] assms show ?thesis using True Nil by auto
  next
    case (Cons landmarks others)
    have hp: "handPresent landmarks (dateNow f) (r\<lparr>lastVideoTime := currentTime f\<rparr>, st) = Inr (r', st')"
      using predictWebcam_present [OF True Cons, of st] assms by simp
    have len: "21 \<le> length landmarks"
    proof (rule ccontr)
      assume "\<not> 21 \<le> length landmarks"
      then have "length landmarks < 21" by simp
      from handPresent_short [OF this] hp show False by simp
    qed
    obtain stableG where
      "stableGesture (pushHistory (gestureHistory r) (detectedGesture landmarks)) = Inr stableG"
      using stableGesture_push_ex by blast
    with True Cons len hp show ?thesis by blast
  qed
qed

lemma handPresent_mode:
  assumes "handPresent landmarks now (r, st) = Inr (r', st')"
    and "stableGesture (pushHistory (gestureHistory r) (detectedGesture landmarks)) = Inr stableG"
  shows "mode st' = (if commits stableG (mode st) now (lastGestureTime r)
                     then the (targetMode stableG) else mode st)"
    and "lastGestureTime r' = (if commits stableG (mode st) now (lastGestureTime r)
                               then now else lastGestureTime r)"
    and "commits stableG (mode st) now (lastGestureTime r) \<Longrightarrow> targetMode stableG \<noteq> None"
proof -
  have l: "21 \<le> length landmarks"
  proof (rule ccontr)
    assume "\<not> 21 \<le> length landmarks"
    then have "length landmarks < 21" by simp
    from handPresent_short [OF this] assms(1) show False by simp
  qed
  note res = handPresent_result [OF l assms(2), of now st]
  have c: "targetMode stableG \<noteq> None" if "commits stableG (mode st) now (lastGestureTime r)"
    using that by (auto simp: commits_def split: option.splits)
  from c show "commits stableG (mode st) now (lastGestureTime r) \<Longrightarrow> targetMode stableG \<noteq> None" .
  from assms(1) c show "mode st' = (if commits stableG (mode st) now (lastGestureTime r)
                     then the (targetMode stableG) else mode st)"
    unfolding res by (auto simp: transition_commits setMode_def updateHandData_def)
  from assms(1) c show "lastGestureTime r' = (if commits stableG (mode st) now (lastGestureTime r)
                               then now else lastGestureTime r)"
    unfolding res by (auto simp: transition_commits setMode_def updateHandData_def)
qed

lemma run_single: "run [e] rs = step e rs"
  by (simp split: sum.splits)

lemma step_history_length:
  assumes "step e (r, st) = Inr (r', st')" and "length (gestureHistory r) \<le> 8"
  shows "length (gestureHistory r') \<le> 8"
proof (cases e)
  case (Frame f)
  with assms(1) have pw: "predictWebcam f (r, st) = Inr (r', st')" by simp
  from predictWebcam_cases [OF pw] show ?thesis
  proof (elim disjE exE conjE)
    fix landmarks others stableG
    assume l: "21 \<le> length landmarks"
      and sg: "stableGesture (pushHistory (gestureHistory r) (detectedGesture landmarks)) = Inr stableG"
      and hp: "handPresent landmarks (dateNow f) (r\<lparr>lastVideoTime := currentTime f\<rparr>, st) = Inr (r', st')"
    have "stableGesture (pushHistory (gestureHistory (r\<lparr>lastVideoTime := currentTime f\<rparr>))
            (detectedGesture landmarks)) = Inr stableG"
      using sg by simp
    from handPresent_result [OF l this, of "dateNow f" st] hp
    have "gestureHistory r' = pushHistory (gestureHistory r) (detectedGesture landmarks)"
      by auto
    then show ?thesis using assms(2) by (simp add: length_pushHistory)
  qed (use assms(2) in auto)
qed (use assms in auto)

lemma run_history_length:
  "run es (r, st) = Inr (r', st') \<Longrightarrow> length (gestureHistory r) \<le> 8
   \<Longrightarrow> length (gestureHistory r') \<le> 8"
proof (induction es arbitrary: r st)
  case Nil
  then show ?case by simp
next
  case (Cons e es)
  from Cons.prems(1) obtain r1 st1 where s: "step e (r, st) = Inr (r1, st1)"
    and rn: "run es (r1, st1) = Inr (r', st')"
    by (auto split: sum.splits)
  from step_history_length [OF s Cons.prems(2)] Cons.IH [OF rn] show ?case by simp
qed

subsection \<open>Smoothing\<close>


lemma lerpFactor_range: "0 \<le> lerpFactor s w \<and> lerpFactor s w \<le> 1"
  by (simp add: lerpFactor_def)





lemma distMoved_smooth:
  "distMoved (smooth s w) w = (1 - lerpFactor s w) * distMoved s w"
proof -
  let ?t = "lerpFactor s w"
  have x: "rawX w - lerp (fst s) (rawX w) ?t = (1 - ?t) * (rawX w - fst s)"
    by (simp add: lerp_def algebra_simps)
  have y: "rawY w - lerp (snd s) (rawY w) ?t = (1 - ?t) * (rawY w - snd s)"
    by (simp add: lerp_def algebra_simps)
  have "0 \<le> 1 - ?t" using lerpFactor_range [of s w] by simp
  from hypot_scale [OF this] show ?thesis
    by (simp add: distMoved_def smooth_def x y)
qed

lemma distMoved_nonneg: "0 \<le> distMoved s w"
  by (simp add: distMoved_def hypot_nonneg)

lemma distMoved_smooth_factor:
  "distMoved (smooth s w) w = (if distMoved s w > 0.05 then 0.7 else 0.9) * distMoved s w"
  unfolding distMoved_smooth by (simp add: lerpFactor_def)

lemma distMoved_smooth_le: "distMoved (smooth s w) w \<le> 0.9 * distMoved s w"
proof -
  have "(1 - lerpFactor s w) \<le> 0.9" by (simp add: lerpFactor_def)
  then have "(1 - lerpFactor s w) * distMoved s w \<le> 0.9 * distMoved s w"
    by (intro mult_right_mono distMoved_nonneg)
  then show ?thesis by (simp add: distMoved_smooth)
qed

lemma distMoved_iterate:
  "distMoved (((\<lambda>s. smooth s w) ^^ n) s) w \<le> 0.9 ^ n * distMoved s w"
proof (induction n)
  case 0
  show ?case by simp
next
  case (Suc n)
  have "distMoved (((\<lambda>s. smooth s w) ^^ Suc n) s) w
          \<le> 0.9 * distMoved (((\<lambda>s. smooth s w) ^^ n) s) w"
    using distMoved_smooth_le [of "((\<lambda>s. smooth s w) ^^ n) s" w] by simp
  also have "\<dots> \<le> 0.9 * (0.9 ^ n * distMoved s w)"
    using Suc by (intro mult_left_mono) simp_all
  finally show ?case by simp
qed

lemma distMoved_tendsto_zero:
  "(\<lambda>n. distMoved (((\<lambda>s. smooth s w) ^^ n) s) w) \<longlonglongrightarrow> 0"
proof (rule tendsto_sandwich [where f = "\<lambda>n. 0" and h = "\<lambda>n. 0.9 ^ n * distMoved s w"])
  show "\<forall>\<^sub>F n in sequentially. 0 \<le> distMoved (((\<lambda>s. smooth s w) ^^ n) s) w"
    by (simp add: distMoved_nonneg)
  show "\<forall>\<^sub>F n in sequentially. distMoved (((\<lambda>s. smooth s w) ^^ n) s) w \<le> 0.9 ^ n * distMoved s w"
    by (simp add: distMoved_iterate)
  show "(\<lambda>n. 0::real) \<longlonglongrightarrow> 0" by simp
  have "(\<lambda>n. (0.9::real) ^ n) \<longlonglongrightarrow> 0" by (rule LIMSEQ_realpow_zero) simp_all
  from tendsto_mult_right [OF this, of "distMoved s w"]
  show "(\<lambda>n. 0.9 ^ n * distMoved s w) \<longlonglongrightarrow> 0" by simp
qed

lemma smooth_fixed: "rawX w = fst s \<Longrightarrow> rawY w = snd s \<Longrightarrow> smooth s w = s"
  by (simp add: smooth_def lerp_def algebra_simps prod_eq_iff)

subsection \<open>The example inputs\<close>

lemma processed_cameraFrame: "t \<noteq> lastVideoTime r \<Longrightarrow> processed (cameraFrame t now hs) r"
  by (simp add: processed_def cameraFrame_def)


lemma openHand_first_frame:
  "\<exists>r' st'. predictWebcam (cameraFrame 0 1000 [openHand]) (initialRefs, useStore) = Inr (r', st')
     \<and> mode st' = SCATTER \<and> gestureHistory r' = [OPEN_HAND]"
proof -
  have p: "processed (cameraFrame 0 1000 [openHand]) initialRefs"
    by (simp add: processed_cameraFrame initialRefs_def)
  have h: "hands (cameraFrame 0 1000 [openHand]) = openHand # []"
    by (simp add: cameraFrame_def)
  have l: "21 \<le> length openHand" by (simp add: length_examples)
  have sg: "stableGesture (pushHistory (gestureHistory (initialRefs\<lparr>lastVideoTime :=
       currentTime (cameraFrame 0 1000 [openHand])\<rparr>)) (detectedGesture openHand)) = Inr OPEN_HAND"
    by (simp add: initialRefs_def detectedGesture_openHand pushHistory_def stableGesture_single)
  have t: "transition OPEN_HAND (mode useStore) (dateNow (cameraFrame 0 1000 [openHand]))
      (lastGestureTime (initialRefs\<lparr>lastVideoTime := currentTime (cameraFrame 0 1000 [openHand])\<rparr>))
      = Some SCATTER"
    by (simp add: transition_def useStore_def initialRefs_def cameraFrame_def)
  show ?thesis
    unfolding predictWebcam_present [OF p h] handPresent_result [OF l sg] t
    by (simp add: setMode_def updateHandData_def initialRefs_def detectedGesture_openHand
        pushHistory_def)
qed

lemma distMoved_example: "distMoved (0.5, 0.5) (point 0.9) = 0.4"
  by (simp add: distMoved_def rawX_def rawY_def point_def hypot_zero_left)

subsection \<open>Double arithmetic\<close>

lemma ieee_simps:
  "addOp (ieee h) a b = double (a + b)"
  "subOp (ieee h) a b = double (a - b)"
  "mulOp (ieee h) a b = double (a * b)"
  "hypotOp (ieee h) = h"
  "literal (ieee h) = double"
  by (simp_all add: ieee_def)

lemma exact_simps:
  "addOp exact a b = a + b"
  "subOp exact a b = a - b"
  "mulOp exact a b = a * b"
  "hypotOp exact = hypot"
  "literal exact c = c"
  by (simp_all add: exact_def)

lemma two_powr_neg: "2 powr (- real n) = 1 / 2 ^ n"
  by (simp add: powr_minus powr_realpow inverse_eq_divide)

lemma ulp_pos: "0 < ulp x"
  by (simp add: ulp_def)

lemma binade_bounds:
  assumes "x \<noteq> 0"
  shows "2 powr of_int (binade x) \<le> \<bar>x\<bar>" and "\<bar>x\<bar> < 2 powr (of_int (binade x) + 1)"
proof -
  have pos: "0 < \<bar>x\<bar>" using assms by simp
  have "of_int (binade x) \<le> log 2 \<bar>x\<bar>" by (simp add: binade_def)
  then have "2 powr of_int (binade x) \<le> 2 powr log 2 \<bar>x\<bar>" by (simp add: powr_mono)
  then show "2 powr of_int (binade x) \<le> \<bar>x\<bar>" using pos by simp
  have "log 2 \<bar>x\<bar> < of_int (binade x) + 1" by (simp add: binade_def)
  then have "2 powr log 2 \<bar>x\<bar> < 2 powr (of_int (binade x) + 1)" by (simp add: powr_less_mono)
  then show "\<bar>x\<bar> < 2 powr (of_int (binade x) + 1)" using pos by simp
qed

lemma binade_eq:
  assumes "2 powr of_int e \<le> \<bar>x\<bar>" and "\<bar>x\<bar> < 2 powr (of_int e + 1)"
  shows "binade x = e"
proof -
  have pos: "0 < \<bar>x\<bar>" using assms(1) by (smt (verit) powr_gt_zero)
  have lo: "of_int e \<le> log 2 \<bar>x\<bar>"
    using assms(1) pos by (simp add: le_log_iff)
  have hi: "log 2 \<bar>x\<bar> < of_int e + 1"
    using assms(2) pos by (simp add: log_less_iff)
  from lo hi show ?thesis unfolding binade_def by linarith
qed

lemma roundEven_error: "\<bar>of_int (roundEven x) - x\<bar> \<le> 1 / 2"
  unfolding roundEven_def Let_def by (auto; linarith)

lemma double_zero: "double 0 = 0"
  by (simp add: double_def)

text \<open>
  The rounding error: relative \<open>2 powr -53\<close>, and at most \<open>eta\<close> near zero.
\<close>

lemma eta_pos: "0 < eta"
  by (simp add: eta_def)

lemma eta_small: "eta \<le> 1 / 2 ^ 53"
proof -
  have "(2::real) powr (- 1075) \<le> 2 powr (- 53)" by (intro powr_mono) simp_all
  also have "(2::real) powr (- 53) = 1 / 2 ^ 53"
    using two_powr_neg [of 53] by simp
  finally show ?thesis by (simp only: eta_def)
qed

lemma double_error: "\<bar>double x - x\<bar> \<le> \<bar>x\<bar> / 2 ^ 53 + eta"
proof (cases "x = 0")
  case True
  then show ?thesis using eta_pos by (simp add: double_def)
next
  case False
  let ?s = "ulp x"
  have s: "0 < ?s" by (rule ulp_pos)
  have "double x - x = (of_int (roundEven (x / ?s)) - x / ?s) * ?s"
    using False s by (simp add: double_def algebra_simps)
  then have "\<bar>double x - x\<bar> = \<bar>of_int (roundEven (x / ?s)) - x / ?s\<bar> * ?s"
    using s by (simp add: abs_mult)
  also have "\<dots> \<le> (1 / 2) * ?s"
    using s roundEven_error [of "x / ?s"] by (intro mult_right_mono) simp_all
  finally have half: "\<bar>double x - x\<bar> \<le> ?s / 2" by simp
  have nn: "0 \<le> \<bar>x\<bar> / 2 ^ 53" by simp
  show ?thesis
  proof (cases "- 1022 \<le> binade x")
    case True
    then have "max (binade x) (- 1022) = binade x" by simp
    then have "?s = 2 powr (of_int (binade x) - 52)" by (simp only: ulp_def)
    also have "\<dots> = 2 powr of_int (binade x) / 2 powr 52"
      by (rule powr_diff)
    also have "(2::real) powr 52 = 2 ^ 52" by (simp add: powr_numeral)
    finally have "?s / 2 = 2 powr of_int (binade x) / 2 ^ 53" by simp
    also have "\<dots> \<le> \<bar>x\<bar> / 2 ^ 53"
      using binade_bounds(1) [OF False] by (intro divide_right_mono) simp_all
    finally show ?thesis using half eta_pos by linarith
  next
    case False
    then have "max (binade x) (- 1022) = - 1022" by simp
    then have "?s = 2 powr (of_int (- 1022) - 52)" by (simp only: ulp_def)
    also have "of_int (- 1022) - 52 = (- 1075 :: real) + 1" by simp
    also have "(2::real) powr (- 1075 + 1) = 2 powr (- 1075) * 2 powr 1" by (rule powr_add)
    finally have "?s / 2 = eta" by (simp add: eta_def)
    then show ?thesis using half nn by linarith
  qed
qed

lemma double_near:
  assumes "\<bar>x\<bar> \<le> 8"
  shows "\<bar>double x - x\<bar> \<le> 1 / 2 ^ 49"
proof -
  have "\<bar>x\<bar> / 2 ^ 53 \<le> 8 / 2 ^ 53" using assms by (intro divide_right_mono) simp_all
  with double_error [of x] eta_small show ?thesis by simp
qed

text \<open>
  Evaluating \<open>double\<close> on a number between 0 and 1.
\<close>

lemma double_fraction:
  assumes "1 / 2 ^ Suc k \<le> x" and "x < 1 / 2 ^ k" and "Suc k \<le> 1022"
  shows "double x = of_int (roundEven (x * 2 ^ (k + 53))) / 2 ^ (k + 53)"
proof -
  have pos: "0 < x" using assms(1) by (smt (verit) divide_pos_pos zero_less_power)
  have b1: "2 powr of_int (- int (Suc k)) \<le> \<bar>x\<bar>"
    using assms(1) pos two_powr_neg [of "Suc k"] by simp
  have "2 powr (of_int (- int (Suc k)) + 1) = 2 powr (- real k)" by simp
  then have b2: "\<bar>x\<bar> < 2 powr (of_int (- int (Suc k)) + 1)"
    using assms(2) pos two_powr_neg [of k] by simp
  have b: "binade x = - int (Suc k)" by (rule binade_eq [OF b1 b2])
  have "of_int (max (- int (Suc k)) (- 1022)) - 52 = - real (k + 53)"
    using assms(3) by simp
  then have "ulp x = 2 powr (- real (k + 53))"
    unfolding ulp_def b by (simp only:)
  then have u: "ulp x = 1 / 2 ^ (k + 53)"
    by (simp only: two_powr_neg)
  show ?thesis using pos by (simp add: double_def u)
qed

lemma roundEven_fraction:
  assumes "of_int n \<le> x" and "x < of_int n + 1 / 2"
  shows "roundEven x = n"
proof -
  have "\<lfloor>x\<rfloor> = n" using assms by linarith
  then show ?thesis using assms by (simp add: roundEven_def Let_def)
qed

lemma roundEven_up:
  assumes "of_int n - 1 / 2 < x" and "x < of_int n"
  shows "roundEven x = n"
proof -
  have "\<lfloor>x\<rfloor> = n - 1" using assms by linarith
  then show ?thesis using assms by (simp add: roundEven_def Let_def)
qed

lemma roundEven_tie_down:
  assumes "x = of_int n + 1 / 2" and "even n"
  shows "roundEven x = n"
proof -
  have "\<lfloor>x\<rfloor> = n" using assms(1) by linarith
  then show ?thesis using assms by (simp add: roundEven_def Let_def)
qed

lemma roundEven_tie_up:
  assumes "x = of_int n - 1 / 2" and "even n"
  shows "roundEven x = n"
proof -
  have f: "\<lfloor>x\<rfloor> = n - 1" using assms(1) by linarith
  have "odd (n - 1)" using assms(2) by simp
  then show ?thesis using assms(1) f by (simp add: roundEven_def Let_def)
qed

lemma double_0_05: "double (0.05) = 3602879701896397 / 2 ^ 56"
proof -
  have "double (0.05) = of_int (roundEven ((0.05) * 2 ^ (4 + 53))) / 2 ^ (4 + 53)"
    by (rule double_fraction) simp_all
  also have "roundEven ((0.05) * 2 ^ (4 + 53)) = 7205759403792794"
    by (rule roundEven_up) simp_all
  finally show ?thesis by simp
qed

lemma double_0_1: "double (0.1) = 3602879701896397 / 2 ^ 55"
proof -
  have "double (0.1) = of_int (roundEven ((0.1) * 2 ^ (3 + 53))) / 2 ^ (3 + 53)"
    by (rule double_fraction) simp_all
  also have "roundEven ((0.1) * 2 ^ (3 + 53)) = 7205759403792794"
    by (rule roundEven_up) simp_all
  finally show ?thesis by simp
qed

lemma double_0_3: "double (0.3) = 5404319552844595 / 2 ^ 54"
proof -
  have "double (0.3) = of_int (roundEven ((0.3) * 2 ^ (1 + 53))) / 2 ^ (1 + 53)"
    by (rule double_fraction) simp_all
  also have "roundEven ((0.3) * 2 ^ (1 + 53)) = 5404319552844595"
    by (rule roundEven_fraction) simp_all
  finally show ?thesis by simp
qed

lemma double_0_62: "double (0.62) = 5584463537939415 / 2 ^ 53"
proof -
  have "double (0.62) = of_int (roundEven ((0.62) * 2 ^ (0 + 53))) / 2 ^ (0 + 53)"
    by (rule double_fraction) simp_all
  also have "roundEven ((0.62) * 2 ^ (0 + 53)) = 5584463537939415"
    by (rule roundEven_fraction) simp_all
  finally show ?thesis by simp
qed

lemma double_half: "double (1 / 2) = 1 / 2 ^ 1"
proof -
  have "double (1 / 2) = of_int (roundEven ((1 / 2) * 2 ^ (0 + 53))) / 2 ^ (0 + 53)"
    by (rule double_fraction) simp_all
  also have "roundEven ((1 / 2) * 2 ^ (0 + 53)) = 4503599627370496"
    by (rule roundEven_fraction) simp_all
  finally show ?thesis by simp
qed

lemma double_one_minus: "double (1 - 3602879701896397 / 2 ^ 55) = 8106479329266893 / 2 ^ 53"
proof -
  have "double (1 - 3602879701896397 / 2 ^ 55) = of_int (roundEven ((1 - 3602879701896397 / 2 ^ 55) * 2 ^ (0 + 53))) / 2 ^ (0 + 53)"
    by (rule double_fraction) simp_all
  also have "roundEven ((1 - 3602879701896397 / 2 ^ 55) * 2 ^ (0 + 53)) = 8106479329266893"
    by (rule roundEven_up) simp_all
  finally show ?thesis by simp
qed

lemma double_y_start: "double ((5584463537939415 / 2 ^ 53) * (8106479329266893 / 2 ^ 53)) = 2513008592072737 / 2 ^ 52"
proof -
  have "double ((5584463537939415 / 2 ^ 53) * (8106479329266893 / 2 ^ 53)) = of_int (roundEven (((5584463537939415 / 2 ^ 53) * (8106479329266893 / 2 ^ 53)) * 2 ^ (0 + 53))) / 2 ^ (0 + 53)"
    by (rule double_fraction) simp_all
  also have "roundEven (((5584463537939415 / 2 ^ 53) * (8106479329266893 / 2 ^ 53)) * 2 ^ (0 + 53)) = 5026017184145474"
    by (rule roundEven_up) simp_all
  finally show ?thesis by simp
qed

lemma double_y_stop: "double ((5584463537939415 / 2 ^ 53) * (3602879701896397 / 2 ^ 55)) = 1116892707587883 / 2 ^ 54"
proof -
  have "double ((5584463537939415 / 2 ^ 53) * (3602879701896397 / 2 ^ 55)) = of_int (roundEven (((5584463537939415 / 2 ^ 53) * (3602879701896397 / 2 ^ 55)) * 2 ^ (4 + 53))) / 2 ^ (4 + 53)"
    by (rule double_fraction) simp_all
  also have "roundEven (((5584463537939415 / 2 ^ 53) * (3602879701896397 / 2 ^ 55)) * 2 ^ (4 + 53)) = 8935141660703064"
    by (rule roundEven_fraction) simp_all
  finally show ?thesis by simp
qed

lemma double_y_sum: "double (2513008592072737 / 2 ^ 52 + 1116892707587883 / 2 ^ 54) = 698057942242427 / 2 ^ 50"
proof -
  have "double (2513008592072737 / 2 ^ 52 + 1116892707587883 / 2 ^ 54) = of_int (roundEven ((2513008592072737 / 2 ^ 52 + 1116892707587883 / 2 ^ 54) * 2 ^ (0 + 53))) / 2 ^ (0 + 53)"
    by (rule double_fraction) simp_all
  also have "roundEven ((2513008592072737 / 2 ^ 52 + 1116892707587883 / 2 ^ 54) * 2 ^ (0 + 53)) = 5584463537939416"
    by (rule roundEven_tie_up) simp_all
  finally show ?thesis by simp
qed

lemma double_x_start: "double ((1 / 2) * (8106479329266893 / 2 ^ 53)) = 8106479329266893 / 2 ^ 54"
proof -
  have "double ((1 / 2) * (8106479329266893 / 2 ^ 53)) = of_int (roundEven (((1 / 2) * (8106479329266893 / 2 ^ 53)) * 2 ^ (1 + 53))) / 2 ^ (1 + 53)"
    by (rule double_fraction) simp_all
  also have "roundEven (((1 / 2) * (8106479329266893 / 2 ^ 53)) * 2 ^ (1 + 53)) = 8106479329266893"
    by (rule roundEven_fraction) simp_all
  finally show ?thesis by simp
qed

lemma double_x_stop: "double ((1 / 2) * (3602879701896397 / 2 ^ 55)) = 3602879701896397 / 2 ^ 56"
proof -
  have "double ((1 / 2) * (3602879701896397 / 2 ^ 55)) = of_int (roundEven (((1 / 2) * (3602879701896397 / 2 ^ 55)) * 2 ^ (4 + 53))) / 2 ^ (4 + 53)"
    by (rule double_fraction) simp_all
  also have "roundEven (((1 / 2) * (3602879701896397 / 2 ^ 55)) * 2 ^ (4 + 53)) = 7205759403792794"
    by (rule roundEven_fraction) simp_all
  finally show ?thesis by simp
qed

lemma double_x_sum: "double (8106479329266893 / 2 ^ 54 + 3602879701896397 / 2 ^ 56) = 1 / 2 ^ 1"
proof -
  have "double (8106479329266893 / 2 ^ 54 + 3602879701896397 / 2 ^ 56) = of_int (roundEven ((8106479329266893 / 2 ^ 54 + 3602879701896397 / 2 ^ 56) * 2 ^ (0 + 53))) / 2 ^ (0 + 53)"
    by (rule double_fraction) simp_all
  also have "roundEven ((8106479329266893 / 2 ^ 54 + 3602879701896397 / 2 ^ 56) * 2 ^ (0 + 53)) = 4503599627370496"
    by (rule roundEven_fraction) simp_all
  finally show ?thesis by simp
qed

lemma lerpIn_example_y:
  "lerpIn (ieee h) (5584463537939415 / 2 ^ 53) (5584463537939415 / 2 ^ 53) (3602879701896397 / 2 ^ 55) = 698057942242427 / 2 ^ 50"
  unfolding lerpIn_def ieee_simps
  by (simp only: double_one_minus double_y_start double_y_stop double_y_sum)

lemma lerpIn_example_x:
  "lerpIn (ieee h) (1 / 2) (1 / 2) (3602879701896397 / 2 ^ 55) = 1 / 2 ^ 1"
  unfolding lerpIn_def ieee_simps
  by (simp only: double_one_minus double_x_start double_x_stop double_x_sum)

subsection \<open>The smoother in double arithmetic\<close>

lemma lerpIn_exact: "lerpIn exact start stop t = lerp start stop t"
  by (simp add: lerpIn_def lerp_def exact_simps)

lemma smoothIn_exact: "smoothIn exact s w = smooth s w"
  by (simp add: smoothIn_def smooth_def lerpIn_exact lerpFactor_def distMoved_def rawX_def
      rawY_def exact_simps Let_def)

text \<open>
  The error of one rounded lerp, for operands of size at most 3 and a factor in [0, 1].
\<close>

lemma lerpIn_ieee_error:
  assumes s: "\<bar>s\<bar> \<le> 3" and r: "\<bar>r\<bar> \<le> 3" and t: "0 \<le> t" "t \<le> 1"
  shows "\<bar>lerpIn (ieee h) s r t - (s * (1 - t) + r * t)\<bar> \<le> 1 / 2 ^ 46"
proof -
  define d :: real where "d = 1 / 2 ^ 49"
  have d: "0 < d" "d \<le> 1 / 8" by (simp_all add: d_def)
  define c where "c = double (1 - t)"
  define p where "p = double (s * c)"
  define q where "q = double (r * t)"
  have "\<bar>1 - t\<bar> \<le> 8" using t by simp
  from double_near [OF this] have c: "\<bar>c - (1 - t)\<bar> \<le> d" by (simp add: c_def d_def)
  then have cb: "\<bar>c\<bar> \<le> 1 + d" using t by linarith
  define x where "x = s * c"
  define y where "y = r * t"
  define z where "z = s * (1 - t)"
  have "\<bar>s * c\<bar> \<le> 3 * (1 + d)"
    unfolding abs_mult using s cb by (intro mult_mono) simp_all
  then have xb: "\<bar>x\<bar> \<le> 3 + 3 * d" by (simp add: x_def algebra_simps)
  then have "\<bar>x\<bar> \<le> 8" using d by linarith
  from double_near [OF this] have p: "\<bar>p - x\<bar> \<le> d" by (simp add: p_def d_def x_def)
  have "\<bar>r * t\<bar> \<le> 3 * 1"
    unfolding abs_mult using r t by (intro mult_mono) simp_all
  then have yb: "\<bar>y\<bar> \<le> 3" by (simp add: y_def)
  then have "\<bar>y\<bar> \<le> 8" by simp
  from double_near [OF this] have q: "\<bar>q - y\<bar> \<le> d" by (simp add: q_def d_def y_def)
  have "\<bar>p + q\<bar> \<le> 8" using p q xb yb d by linarith
  from double_near [OF this] have sum: "\<bar>double (p + q) - (p + q)\<bar> \<le> d" by (simp add: d_def)
  have "\<bar>x - z\<bar> = \<bar>s\<bar> * \<bar>c - (1 - t)\<bar>"
    by (simp add: abs_mult [symmetric] algebra_simps x_def z_def)
  also have "\<dots> \<le> 3 * d" using s c by (intro mult_mono) simp_all
  finally have sc: "\<bar>x - z\<bar> \<le> 3 * d" .
  have "\<bar>double (p + q) - (z + y)\<bar> \<le> 6 * d"
    using sum p q sc by linarith
  then have "\<bar>double (p + q) - (s * (1 - t) + r * t)\<bar> \<le> 6 * d"
    by (simp add: z_def y_def)
  moreover have "lerpIn (ieee h) s r t = double (p + q)"
    by (simp add: lerpIn_def ieee_simps p_def q_def c_def)
  moreover have "6 * d \<le> 1 / 2 ^ 46" by (simp add: d_def)
  ultimately show ?thesis by linarith
qed

lemma smoothIn_ieee:
  "smoothIn (ieee h) s w =
     (lerpIn (ieee h) (fst s) (double (1 - lx w))
        (if h (double (double (1 - lx w) - fst s)) (double (ly w - snd s)) > double 0.05
         then double 0.3 else double 0.1),
      lerpIn (ieee h) (snd s) (ly w)
        (if h (double (double (1 - lx w) - fst s)) (double (ly w - snd s)) > double 0.05
         then double 0.3 else double 0.1))"
  by (simp add: smoothIn_def ieee_simps Let_def)

lemma factor_tenth: "0 \<le> double 0.1" "double 0.1 \<le> 1" "\<bar>(1 - double 0.1) - 0.9\<bar> \<le> 1 / 2 ^ 56"
  unfolding double_0_1 by simp_all

lemma factor_three_tenths:
  "0 \<le> double 0.3" "double 0.3 \<le> 1" "\<bar>(1 - double 0.3) - 0.7\<bar> \<le> 1 / 2 ^ 56"
  unfolding double_0_3 by simp_all

lemma coordinate_step:
  assumes s: "\<bar>s\<bar> \<le> 3" and r: "\<bar>r\<bar> \<le> 3"
    and t: "0 \<le> t" "t \<le> 1" "\<bar>(1 - t) - f\<bar> \<le> 1 / 2 ^ 56"
  shows "\<bar>(r - lerpIn (ieee h) s r t) - f * (r - s)\<bar> \<le> 1 / 2 ^ 45"
proof -
  define g where "g = (1 - t) - f"
  define e where "e = r - s"
  have g: "\<bar>g\<bar> \<le> 1 / 2 ^ 56" using t(3) by (simp add: g_def)
  have e: "\<bar>e\<bar> \<le> 6" using s r by (simp add: e_def)
  have "\<bar>g * e\<bar> \<le> 1 / 2 ^ 56 * 6"
    unfolding abs_mult using g e by (intro mult_mono) simp_all
  then have ge: "\<bar>g * e\<bar> \<le> 1 / 2 ^ 53" by simp
  define l where "l = lerpIn (ieee h) s r t"
  define m where "m = s * (1 - t) + r * t"
  have lm: "\<bar>l - m\<bar> \<le> 1 / 2 ^ 46"
    unfolding l_def m_def by (rule lerpIn_ieee_error [OF s r t(1,2)])
  have "r - m = f * e + g * e"
    by (simp add: g_def e_def m_def algebra_simps)
  with lm have "\<bar>(r - l) - (f * e + g * e)\<bar> \<le> 1 / 2 ^ 46" by linarith
  then have "\<bar>(r - lerpIn (ieee h) s r t) - (f * e + g * e)\<bar> \<le> 1 / 2 ^ 46"
    by (simp only: l_def)
  with ge have "\<bar>(r - lerpIn (ieee h) s r t) - f * e\<bar> \<le> 1 / 2 ^ 46 + 1 / 2 ^ 53" by linarith
  then show ?thesis by (simp add: e_def)
qed

lemma hypot_triangle: "hypot (a + c) (b + d) \<le> hypot a b + hypot c d"
  using real_sqrt_sum_squares_triangle_ineq [of a c b d]
  by (simp add: hypot_def power2_eq_square)

lemma hypot_le_sum: "hypot a b \<le> \<bar>a\<bar> + \<bar>b\<bar>"
  using sqrt_sum_squares_le_sum_abs [of a b] by (simp add: hypot_def power2_eq_square)

lemma hypot_perturbed:
  assumes "\<bar>a' - f * a\<bar> \<le> e" and "\<bar>b' - f * b\<bar> \<le> e" and "0 \<le> f"
  shows "\<bar>hypot a' b' - f * hypot a b\<bar> \<le> 2 * e"
proof -
  define u where "u = a' - f * a"
  define v where "v = b' - f * b"
  have uv: "hypot u v \<le> 2 * e" "hypot (- u) (- v) \<le> 2 * e"
    using hypot_le_sum [of u v] hypot_le_sum [of "- u" "- v"] assms(1,2)
    by (simp_all add: u_def v_def)
  have sc: "hypot (f * a) (f * b) = f * hypot a b" by (rule hypot_scale [OF assms(3)])
  have "hypot a' b' = hypot (f * a + u) (f * b + v)" by (simp add: u_def v_def)
  also have "\<dots> \<le> hypot (f * a) (f * b) + hypot u v" by (rule hypot_triangle)
  finally have up: "hypot a' b' \<le> f * hypot a b + 2 * e" using uv sc by linarith
  have "hypot (f * a) (f * b) = hypot (a' + (- u)) (b' + (- v))" by (simp add: u_def v_def)
  also have "\<dots> \<le> hypot a' b' + hypot (- u) (- v)" by (rule hypot_triangle)
  finally have "f * hypot a b \<le> hypot a' b' + 2 * e" using uv sc by linarith
  with up show ?thesis by linarith
qed

lemma raw_bound:
  assumes "0 \<le> v" "v \<le> 1"
  shows "\<bar>double (1 - v)\<bar> \<le> 1 + 1 / 2 ^ 49"
proof -
  have "\<bar>1 - v\<bar> \<le> 8" using assms by simp
  from double_near [OF this] show ?thesis using assms by linarith
qed

lemma smoothIn_ieee_step:
  fixes h :: "real \<Rightarrow> real \<Rightarrow> real" and w :: landmark and s :: "real \<times> real"
  assumes w: "0 \<le> lx w" "lx w \<le> 1" "0 \<le> ly w" "ly w \<le> 1"
    and s: "\<bar>fst s\<bar> \<le> 3" "\<bar>snd s\<bar> \<le> 3"
  defines "f \<equiv> (if h (double (double (1 - lx w) - fst s)) (double (ly w - snd s)) > double 0.05
                  then 0.7 else 0.9 :: real)"
  shows "\<bar>(double (1 - lx w) - fst (smoothIn (ieee h) s w)) - f * (double (1 - lx w) - fst s)\<bar>
           \<le> 1 / 2 ^ 45"
    and "\<bar>(ly w - snd (smoothIn (ieee h) s w)) - f * (ly w - snd s)\<bar> \<le> 1 / 2 ^ 45"
    and "\<bar>hypot (double (1 - lx w) - fst (smoothIn (ieee h) s w))
               (ly w - snd (smoothIn (ieee h) s w))
           - f * hypot (double (1 - lx w) - fst s) (ly w - snd s)\<bar> \<le> 1 / 2 ^ 44"
proof -
  define t where "t = (if h (double (double (1 - lx w) - fst s)) (double (ly w - snd s)) > double 0.05
                  then double 0.3 else double 0.1)"
  have t: "0 \<le> t" "t \<le> 1" "\<bar>(1 - t) - f\<bar> \<le> 1 / 2 ^ 56"
    using factor_tenth factor_three_tenths by (simp_all add: t_def f_def)
  have f: "0 \<le> f" by (simp add: f_def)
  have rx: "\<bar>double (1 - lx w)\<bar> \<le> 3" using raw_bound [OF w(1,2)] by simp
  have ry: "\<bar>ly w\<bar> \<le> 3" using w by simp
  have sm: "smoothIn (ieee h) s w =
      (lerpIn (ieee h) (fst s) (double (1 - lx w)) t, lerpIn (ieee h) (snd s) (ly w) t)"
    unfolding smoothIn_ieee t_def by (rule refl)
  show x: "\<bar>(double (1 - lx w) - fst (smoothIn (ieee h) s w)) - f * (double (1 - lx w) - fst s)\<bar>
           \<le> 1 / 2 ^ 45"
    unfolding sm fst_conv by (rule coordinate_step [OF s(1) rx t])
  show y: "\<bar>(ly w - snd (smoothIn (ieee h) s w)) - f * (ly w - snd s)\<bar> \<le> 1 / 2 ^ 45"
    unfolding sm snd_conv by (rule coordinate_step [OF s(2) ry t])
  from hypot_perturbed [OF x y f]
  show "\<bar>hypot (double (1 - lx w) - fst (smoothIn (ieee h) s w))
               (ly w - snd (smoothIn (ieee h) s w))
           - f * hypot (double (1 - lx w) - fst s) (ly w - snd s)\<bar> \<le> 1 / 2 ^ 44"
    by simp
qed

text \<open>
  With the wrist held still the smoothed cursor stays within 3/2 of the raw position.
\<close>

lemma smoothIn_ieee_invariant:
  assumes w: "0 \<le> lx w" "lx w \<le> 1" "0 \<le> ly w" "ly w \<le> 1"
    and s: "\<bar>double (1 - lx w) - fst s\<bar> \<le> 3 / 2" "\<bar>ly w - snd s\<bar> \<le> 3 / 2"
  shows "\<bar>double (1 - lx w) - fst (smoothIn (ieee h) s w)\<bar> \<le> 3 / 2"
    and "\<bar>ly w - snd (smoothIn (ieee h) s w)\<bar> \<le> 3 / 2"
    and "\<bar>fst s\<bar> \<le> 3" and "\<bar>snd s\<bar> \<le> 3"
proof -
  have rx: "\<bar>double (1 - lx w)\<bar> \<le> 1 + 1 / 2 ^ 49" by (rule raw_bound [OF w(1,2)])
  have "(1::real) / 2 ^ 49 \<le> 1 / 2" by simp
  with rx have rx': "\<bar>double (1 - lx w)\<bar> \<le> 3 / 2" by linarith
  show b: "\<bar>fst s\<bar> \<le> 3" "\<bar>snd s\<bar> \<le> 3"
    using rx' s w by linarith+
  define f where "f = (if h (double (double (1 - lx w) - fst s)) (double (ly w - snd s)) > double 0.05
                  then 0.7 else 0.9 :: real)"
  have f: "0 \<le> f" "f \<le> 0.9" by (simp_all add: f_def)
  note st = smoothIn_ieee_step [OF w b, of h, folded f_def]
  have "\<bar>f * (double (1 - lx w) - fst s)\<bar> \<le> 0.9 * (3 / 2)"
    unfolding abs_mult using f s(1) by (intro mult_mono) simp_all
  moreover have small: "(1::real) / 2 ^ 45 \<le> 3 / 20" by simp
  ultimately show "\<bar>double (1 - lx w) - fst (smoothIn (ieee h) s w)\<bar> \<le> 3 / 2"
    using st(1) by linarith
  have "\<bar>f * (ly w - snd s)\<bar> \<le> 0.9 * (3 / 2)"
    unfolding abs_mult using f s(2) by (intro mult_mono) simp_all
  with small st(2) show "\<bar>ly w - snd (smoothIn (ieee h) s w)\<bar> \<le> 3 / 2" by linarith
qed

lemma smoothIn_ieee_contracts:
  assumes w: "0 \<le> lx w" "lx w \<le> 1" "0 \<le> ly w" "ly w \<le> 1"
    and s: "\<bar>double (1 - lx w) - fst s\<bar> \<le> 3 / 2" "\<bar>ly w - snd s\<bar> \<le> 3 / 2"
  shows "hypot (double (1 - lx w) - fst (smoothIn (ieee h) s w)) (ly w - snd (smoothIn (ieee h) s w))
       \<le> 0.9 * hypot (double (1 - lx w) - fst s) (ly w - snd s) + 1 / 2 ^ 44"
proof -
  define f where "f = (if h (double (double (1 - lx w) - fst s)) (double (ly w - snd s)) > double 0.05
                  then 0.7 else 0.9 :: real)"
  have f: "0 \<le> f" "f \<le> 0.9" by (simp_all add: f_def)
  note b = smoothIn_ieee_invariant(3,4) [OF w s]
  note st = smoothIn_ieee_step(3) [OF w b, of h, folded f_def]
  have "f * hypot (double (1 - lx w) - fst s) (ly w - snd s)
      \<le> 0.9 * hypot (double (1 - lx w) - fst s) (ly w - snd s)"
    using f by (intro mult_right_mono hypot_nonneg) simp
  with st show ?thesis by linarith
qed

lemma smoothIn_ieee_iterate:
  assumes w: "0 \<le> lx w" "lx w \<le> 1" "0 \<le> ly w" "ly w \<le> 1"
    and s: "\<bar>double (1 - lx w) - fst s\<bar> \<le> 3 / 2" "\<bar>ly w - snd s\<bar> \<le> 3 / 2"
  shows "\<bar>double (1 - lx w) - fst (((\<lambda>s. smoothIn (ieee h) s w) ^^ n) s)\<bar> \<le> 3 / 2
       \<and> \<bar>ly w - snd (((\<lambda>s. smoothIn (ieee h) s w) ^^ n) s)\<bar> \<le> 3 / 2
       \<and> hypot (double (1 - lx w) - fst (((\<lambda>s. smoothIn (ieee h) s w) ^^ n) s))
               (ly w - snd (((\<lambda>s. smoothIn (ieee h) s w) ^^ n) s))
           \<le> 0.9 ^ n * hypot (double (1 - lx w) - fst s) (ly w - snd s)
              + 10 / 2 ^ 44 * (1 - 0.9 ^ n)"
proof (induction n)
  case 0
  show ?case using s by simp
next
  case (Suc n)
  let ?sn = "((\<lambda>s. smoothIn (ieee h) s w) ^^ n) s"
  have eq: "((\<lambda>s. smoothIn (ieee h) s w) ^^ Suc n) s = smoothIn (ieee h) ?sn w" by simp
  from Suc have sn: "\<bar>double (1 - lx w) - fst ?sn\<bar> \<le> 3 / 2" "\<bar>ly w - snd ?sn\<bar> \<le> 3 / 2"
    and dn: "hypot (double (1 - lx w) - fst ?sn) (ly w - snd ?sn)
           \<le> 0.9 ^ n * hypot (double (1 - lx w) - fst s) (ly w - snd s)
              + 10 / 2 ^ 44 * (1 - 0.9 ^ n)"
    by simp_all
  note inv = smoothIn_ieee_invariant(1,2) [OF w sn, of h]
  define d0 where "d0 = hypot (double (1 - lx w) - fst s) (ly w - snd s)"
  define dn where "dn = hypot (double (1 - lx w) - fst ?sn) (ly w - snd ?sn)"
  define dS where "dS = hypot (double (1 - lx w) - fst (smoothIn (ieee h) ?sn w))
      (ly w - snd (smoothIn (ieee h) ?sn w))"
  define p :: real where "p = 0.9 ^ n"
  define E :: real where "E = 1 / 2 ^ 44"
  have c: "dS \<le> 0.9 * dn + E"
    unfolding dS_def dn_def E_def by (rule smoothIn_ieee_contracts [OF w sn])
  have dn': "dn \<le> p * d0 + 10 * E * (1 - p)"
    using dn by (simp add: dn_def d0_def p_def E_def)
  then have "0.9 * dn \<le> 0.9 * (p * d0 + 10 * E * (1 - p))"
    by (intro mult_left_mono) simp_all
  with c have "dS \<le> 0.9 * (p * d0 + 10 * E * (1 - p)) + E" by linarith
  also have "\<dots> = (0.9 * p) * d0 + 10 * E * (1 - 0.9 * p)" by (simp add: algebra_simps)
  finally have "dS \<le> 0.9 ^ Suc n * d0 + 10 / 2 ^ 44 * (1 - 0.9 ^ Suc n)"
    by (simp add: p_def E_def)
  with inv show ?case unfolding eq dS_def d0_def by simp
qed

lemma smoothIn_example:
  "smoothIn (ieee roundedHypot) (1 / 2, double 0.62) \<lparr>lx = 1 / 2, ly = double 0.62, lz = 0\<rparr>
     = (1 / 2, 698057942242427 / 2 ^ 50)"
proof -
  have rx: "double (1 / 2) = 1 / 2" using double_half by simp
  have hz: "roundedHypot 0 0 = 0" by (simp add: roundedHypot_def hypot_def double_zero)
  have f: "\<not> 0 > double 0.05" unfolding double_0_05 by simp
  have x: "lerpIn (ieee roundedHypot) (1 / 2) (1 / 2) (double 0.1) = 1 / 2"
    unfolding double_0_1 using lerpIn_example_x [of roundedHypot] by simp
  have y: "lerpIn (ieee roundedHypot) (double 0.62) (double 0.62) (double 0.1)
             = 698057942242427 / 2 ^ 50"
    unfolding double_0_1 double_0_62 by (rule lerpIn_example_y)
  show ?thesis
    unfolding smoothIn_ieee using hz f x y by (simp add: rx double_zero)
qed

subsection \<open>The classifier in any arithmetic\<close>

lemma detectedGestureIn_planar:
  "detectedGestureIn a landmarks =
     classifierWith (\<lambda>c hsize. mulOp a hsize (literal a c))
       (planarIn a (landmarks ! 9) (landmarks ! 0))
       (planarIn a (landmarks ! 4) (landmarks ! 0))
       (planarIn a (landmarks ! 4) (landmarks ! 8))
       [planarIn a (landmarks ! 8) (landmarks ! 0), planarIn a (landmarks ! 12) (landmarks ! 0),
        planarIn a (landmarks ! 16) (landmarks ! 0), planarIn a (landmarks ! 20) (landmarks ! 0)]"
  by (simp add: detectedGestureIn_def classifierWith_def planarIn_def Let_def)

lemma detectedGestureIn_exact: "detectedGestureIn exact landmarks = detectedGesture landmarks"
  by (simp add: detectedGestureIn_def classification exact_simps Let_def)

lemma detectedGesture_planarDistance:
  "21 \<le> length landmarks \<Longrightarrow>
   detectedGesture landmarks =
     classifierSpec
       (planarDistance (landmarks ! 0) (landmarks ! 9))
       (planarDistance (landmarks ! 4) (landmarks ! 0))
       (planarDistance (landmarks ! 4) (landmarks ! 8))
       [planarDistance (landmarks ! 0) (landmarks ! 8), planarDistance (landmarks ! 0) (landmarks ! 12),
        planarDistance (landmarks ! 0) (landmarks ! 16), planarDistance (landmarks ! 0) (landmarks ! 20)]"
proof -
  have hs: "handSize landmarks = planarDistance (landmarks ! 0) (landmarks ! 9)"
    by (simp add: handSize_def hypot_distance wrist_def middleFingerMCP_def)
  have love: "isLove landmarks = heartSpec (planarDistance (landmarks ! 0) (landmarks ! 9))
       (planarDistance (landmarks ! 4) (landmarks ! 0))
       [planarDistance (landmarks ! 0) (landmarks ! 8), planarDistance (landmarks ! 0) (landmarks ! 12),
        planarDistance (landmarks ! 0) (landmarks ! 16), planarDistance (landmarks ! 0) (landmarks ! 20)]"
    by (simp add: isLove_def heartSpec_def thumbUp_def indexUp_def middleDown_def ringDown_def
        pinkyUp_def hs fingerDistances_nth hypot_distance' thumbTip_def wrist_def mult.commute)
  have vic: "isVictory landmarks = victorySpec (planarDistance (landmarks ! 0) (landmarks ! 9))
       [planarDistance (landmarks ! 0) (landmarks ! 8), planarDistance (landmarks ! 0) (landmarks ! 12),
        planarDistance (landmarks ! 0) (landmarks ! 16), planarDistance (landmarks ! 0) (landmarks ! 20)]"
    by (simp add: isVictory_def victorySpec_def indexUp_def middleUp_def ringDown_def
        pinkyDown_def hs fingerDistances_nth mult.commute)
  have fi: "isFist landmarks = closedFistSpec (planarDistance (landmarks ! 0) (landmarks ! 9))
       [planarDistance (landmarks ! 0) (landmarks ! 8), planarDistance (landmarks ! 0) (landmarks ! 12),
        planarDistance (landmarks ! 0) (landmarks ! 16), planarDistance (landmarks ! 0) (landmarks ! 20)]"
    unfolding isFist_def closedFistSpec_def FIST_RATIO_def hs
    by (subst fingerDistances_list) (simp add: fingerDistances_nth mult.commute)
  have op: "isOpen landmarks = openHandSpec (planarDistance (landmarks ! 0) (landmarks ! 9))
       [planarDistance (landmarks ! 0) (landmarks ! 8), planarDistance (landmarks ! 0) (landmarks ! 12),
        planarDistance (landmarks ! 0) (landmarks ! 16), planarDistance (landmarks ! 0) (landmarks ! 20)]"
    unfolding isOpen_def openHandSpec_def OPEN_RATIO_def hs
    by (subst fingerDistances_list) (simp add: fingerDistances_nth mult.commute)
  have pi: "isPinch landmarks = pinchSpec (planarDistance (landmarks ! 0) (landmarks ! 9))
       (planarDistance (landmarks ! 4) (landmarks ! 8))"
    by (simp add: isPinch_def pinchSpec_def PINCH_RATIO_def hs pinchDist_def hypot_distance'
        thumbTip_def indexTip_def mult.commute)
  show ?thesis
    unfolding detectedGesture_def classifierSpec_def love vic fi op pi by (rule refl)
qed

lemma sqrt_eq: "0 \<le> y \<Longrightarrow> y * y = x \<Longrightarrow> sqrt x = y"
  by (metis real_sqrt_abs2 abs_of_nonneg)

lemma distance3_pointing:
  "distance3 (pointing ! 0) (pointing ! 9) = 0.3"
  "distance3 (pointing ! 4) (pointing ! 0) = 0"
  "distance3 (pointing ! 4) (pointing ! 8) = 0.5"
  "distance3 (pointing ! 0) (pointing ! 8) = 0.5"
  "distance3 (pointing ! 0) (pointing ! 12) = 0.5"
  "distance3 (pointing ! 0) (pointing ! 16) = 0.5"
  "distance3 (pointing ! 0) (pointing ! 20) = 0.5"
proof -
  have a: "sqrt (9 / 100) = 3 / 10" by (rule sqrt_eq) simp_all
  have b: "sqrt (1 / 4) = 1 / 2" by (rule sqrt_eq) simp_all
  show "distance3 (pointing ! 0) (pointing ! 9) = 0.3"
    "distance3 (pointing ! 4) (pointing ! 0) = 0"
    "distance3 (pointing ! 4) (pointing ! 8) = 0.5"
    "distance3 (pointing ! 0) (pointing ! 8) = 0.5"
    "distance3 (pointing ! 0) (pointing ! 12) = 0.5"
    "distance3 (pointing ! 0) (pointing ! 16) = 0.5"
    "distance3 (pointing ! 0) (pointing ! 20) = 0.5"
    unfolding distance3_def pointing_def point3_def
    by (simp_all add: power2_eq_square a b)
qed

lemma detectedGesture_pointing: "detectedGesture pointing = CLOSED_FIST"
  by (simp add: classification pointing_def point3_def hypot_zero_left)

lemma spec_pointing:
  "classifierSpec (distance3 (pointing ! 0) (pointing ! 9)) (distance3 (pointing ! 4) (pointing ! 0))
     (distance3 (pointing ! 4) (pointing ! 8))
     [distance3 (pointing ! 0) (pointing ! 8), distance3 (pointing ! 0) (pointing ! 12),
      distance3 (pointing ! 0) (pointing ! 16), distance3 (pointing ! 0) (pointing ! 20)]
   = OPEN_HAND"
  unfolding distance3_pointing
  by (simp add: classifierSpec_def heartSpec_def victorySpec_def closedFistSpec_def pinchSpec_def
      openHandSpec_def)

section \<open>The claims\<close>

subsection \<open>C1: the classifier\<close>

text \<open>
  C1 does not hold as stated. A landmark has three coordinates, and the classifier never
  reads the depth: its distances are taken in the image plane. For the hand that points at
  the camera the classifier returns CLOSED_FIST, while the priority chain over the
  Euclidean distances of the landmarks gives OPEN_HAND.
\<close>

theorem classifier_ignores_depth:
  "detectedGesture pointing = CLOSED_FIST
   \<and> classifierSpec
       (distance3 (pointing ! 0) (pointing ! 9))
       (distance3 (pointing ! 4) (pointing ! 0))
       (distance3 (pointing ! 4) (pointing ! 8))
       [distance3 (pointing ! 0) (pointing ! 8), distance3 (pointing ! 0) (pointing ! 12),
        distance3 (pointing ! 0) (pointing ! 16), distance3 (pointing ! 0) (pointing ! 20)]
     = OPEN_HAND"
  using detectedGesture_pointing spec_pointing by simp

text \<open>
  C1, amended. For every hand of 21 landmarks the classifier returns the first predicate
  that holds in the order HEART, VICTORY, CLOSED_FIST, PINCH, OPEN_HAND, else NONE, where
  every distance is the one in the image plane (x and y only): the hand size from the
  wrist (0) to the middle-finger MCP (9), \<open>d\<close> from the wrist to the tips 8, 12, 16 and
  20, the thumb distance from the thumb tip (4) to the wrist and the pinch distance from
  the thumb tip to the index tip; and where each threshold \<open>c \<cdot> handSize\<close>, with the
  constants of the specification, is the product as the code computes it. This holds in
  every arithmetic, so also with the rounding of doubles; in exact arithmetic the
  classifier of the frame loop is this one and the thresholds are the exact products.
\<close>

theorem classifier_matches_planar_spec:
  "21 \<le> length landmarks \<Longrightarrow>
   detectedGestureIn a landmarks =
     classifierWith (\<lambda>c hsize. mulOp a hsize (literal a c))
       (planarIn a (landmarks ! 9) (landmarks ! 0))
       (planarIn a (landmarks ! 4) (landmarks ! 0))
       (planarIn a (landmarks ! 4) (landmarks ! 8))
       [planarIn a (landmarks ! 8) (landmarks ! 0), planarIn a (landmarks ! 12) (landmarks ! 0),
        planarIn a (landmarks ! 16) (landmarks ! 0), planarIn a (landmarks ! 20) (landmarks ! 0)]
   \<and> detectedGestureIn exact landmarks = detectedGesture landmarks
   \<and> detectedGesture landmarks =
     classifierSpec
       (planarDistance (landmarks ! 0) (landmarks ! 9))
       (planarDistance (landmarks ! 4) (landmarks ! 0))
       (planarDistance (landmarks ! 4) (landmarks ! 8))
       [planarDistance (landmarks ! 0) (landmarks ! 8), planarDistance (landmarks ! 0) (landmarks ! 12),
        planarDistance (landmarks ! 0) (landmarks ! 16), planarDistance (landmarks ! 0) (landmarks ! 20)]"
proof (intro conjI)
  assume l: "21 \<le> length landmarks"
  show "detectedGestureIn a landmarks =
     classifierWith (\<lambda>c hsize. mulOp a hsize (literal a c))
       (planarIn a (landmarks ! 9) (landmarks ! 0))
       (planarIn a (landmarks ! 4) (landmarks ! 0))
       (planarIn a (landmarks ! 4) (landmarks ! 8))
       [planarIn a (landmarks ! 8) (landmarks ! 0), planarIn a (landmarks ! 12) (landmarks ! 0),
        planarIn a (landmarks ! 16) (landmarks ! 0), planarIn a (landmarks ! 20) (landmarks ! 0)]"
    by (rule detectedGestureIn_planar)
  show "detectedGestureIn exact landmarks = detectedGesture landmarks"
    by (rule detectedGestureIn_exact)
  show "detectedGesture landmarks =
     classifierSpec
       (planarDistance (landmarks ! 0) (landmarks ! 9))
       (planarDistance (landmarks ! 4) (landmarks ! 0))
       (planarDistance (landmarks ! 4) (landmarks ! 8))
       [planarDistance (landmarks ! 0) (landmarks ! 8), planarDistance (landmarks ! 0) (landmarks ! 12),
        planarDistance (landmarks ! 0) (landmarks ! 16), planarDistance (landmarks ! 0) (landmarks ! 20)]"
    by (rule detectedGesture_planarDistance [OF l])
qed

text \<open>
  The open hand and the fist of the examples, in exact arithmetic, and the open hand in
  double arithmetic.
\<close>

theorem classifier_matches_planar_spec_witness:
  "21 \<le> length openHand
   \<and> classifierSpec
       (planarDistance (openHand ! 0) (openHand ! 9))
       (planarDistance (openHand ! 4) (openHand ! 0))
       (planarDistance (openHand ! 4) (openHand ! 8))
       [planarDistance (openHand ! 0) (openHand ! 8), planarDistance (openHand ! 0) (openHand ! 12),
        planarDistance (openHand ! 0) (openHand ! 16), planarDistance (openHand ! 0) (openHand ! 20)]
     = OPEN_HAND
   \<and> 21 \<le> length fist
   \<and> classifierSpec
       (planarDistance (fist ! 0) (fist ! 9))
       (planarDistance (fist ! 4) (fist ! 0))
       (planarDistance (fist ! 4) (fist ! 8))
       [planarDistance (fist ! 0) (fist ! 8), planarDistance (fist ! 0) (fist ! 12),
        planarDistance (fist ! 0) (fist ! 16), planarDistance (fist ! 0) (fist ! 20)]
     = CLOSED_FIST
   \<and> detectedGestureIn exact openHand = OPEN_HAND
   \<and> detectedGestureIn (ieee roundedHypot) openHand =
     classifierWith (\<lambda>c hsize. double (hsize * double c))
       (planarIn (ieee roundedHypot) (openHand ! 9) (openHand ! 0))
       (planarIn (ieee roundedHypot) (openHand ! 4) (openHand ! 0))
       (planarIn (ieee roundedHypot) (openHand ! 4) (openHand ! 8))
       [planarIn (ieee roundedHypot) (openHand ! 8) (openHand ! 0),
        planarIn (ieee roundedHypot) (openHand ! 12) (openHand ! 0),
        planarIn (ieee roundedHypot) (openHand ! 16) (openHand ! 0),
        planarIn (ieee roundedHypot) (openHand ! 20) (openHand ! 0)]"
proof -
  have h: "21 \<le> length openHand" and h': "21 \<le> length fist"
    by (simp_all add: length_examples)
  note o = classifier_matches_planar_spec [OF h, of exact]
  note f = classifier_matches_planar_spec [OF h', of exact]
  note r = classifier_matches_planar_spec [OF h, of "ieee roundedHypot"]
  from o [THEN conjunct2, THEN conjunct2] have o1: "classifierSpec
       (planarDistance (openHand ! 0) (openHand ! 9))
       (planarDistance (openHand ! 4) (openHand ! 0))
       (planarDistance (openHand ! 4) (openHand ! 8))
       [planarDistance (openHand ! 0) (openHand ! 8), planarDistance (openHand ! 0) (openHand ! 12),
        planarDistance (openHand ! 0) (openHand ! 16), planarDistance (openHand ! 0) (openHand ! 20)]
     = OPEN_HAND"
    by (simp add: detectedGesture_openHand)
  from f [THEN conjunct2, THEN conjunct2] have f1: "classifierSpec
       (planarDistance (fist ! 0) (fist ! 9))
       (planarDistance (fist ! 4) (fist ! 0))
       (planarDistance (fist ! 4) (fist ! 8))
       [planarDistance (fist ! 0) (fist ! 8), planarDistance (fist ! 0) (fist ! 12),
        planarDistance (fist ! 0) (fist ! 16), planarDistance (fist ! 0) (fist ! 20)]
     = CLOSED_FIST"
    by (simp add: detectedGesture_fist)
  from o [THEN conjunct2, THEN conjunct1] have o2: "detectedGestureIn exact openHand = OPEN_HAND"
    by (simp add: detectedGesture_openHand)
  from r [THEN conjunct1] have r1: "detectedGestureIn (ieee roundedHypot) openHand =
     classifierWith (\<lambda>c hsize. double (hsize * double c))
       (planarIn (ieee roundedHypot) (openHand ! 9) (openHand ! 0))
       (planarIn (ieee roundedHypot) (openHand ! 4) (openHand ! 0))
       (planarIn (ieee roundedHypot) (openHand ! 4) (openHand ! 8))
       [planarIn (ieee roundedHypot) (openHand ! 8) (openHand ! 0),
        planarIn (ieee roundedHypot) (openHand ! 12) (openHand ! 0),
        planarIn (ieee roundedHypot) (openHand ! 16) (openHand ! 0),
        planarIn (ieee roundedHypot) (openHand ! 20) (openHand ! 0)]"
    by (simp add: ieee_simps)
  from h h' o1 f1 o2 r1 show ?thesis by blast
qed

subsection \<open>C2: the stable gesture\<close>

text \<open>
  C2 does not hold as stated: among the gestures tied at the maximal count the vote
  returns the one that entered the window last, not first. After four alternations of
  OPEN_HAND and CLOSED_FIST both occur four times, OPEN_HAND occurs first, and the stable
  gesture is CLOSED_FIST.
\<close>

theorem stableGesture_tie_not_earliest:
  "pushHistory
     [OPEN_HAND, CLOSED_FIST, OPEN_HAND, CLOSED_FIST, OPEN_HAND, CLOSED_FIST, OPEN_HAND]
     CLOSED_FIST
   = [OPEN_HAND, CLOSED_FIST, OPEN_HAND, CLOSED_FIST, OPEN_HAND, CLOSED_FIST, OPEN_HAND,
      CLOSED_FIST]
   \<and> stableGesture
       [OPEN_HAND, CLOSED_FIST, OPEN_HAND, CLOSED_FIST, OPEN_HAND, CLOSED_FIST, OPEN_HAND,
        CLOSED_FIST]
     = Inr CLOSED_FIST
   \<and> count_list
       [OPEN_HAND, CLOSED_FIST, OPEN_HAND, CLOSED_FIST, OPEN_HAND, CLOSED_FIST, OPEN_HAND,
        CLOSED_FIST] OPEN_HAND
     = count_list
       [OPEN_HAND, CLOSED_FIST, OPEN_HAND, CLOSED_FIST, OPEN_HAND, CLOSED_FIST, OPEN_HAND,
        CLOSED_FIST] CLOSED_FIST
   \<and> firstIndex
       [OPEN_HAND, CLOSED_FIST, OPEN_HAND, CLOSED_FIST, OPEN_HAND, CLOSED_FIST, OPEN_HAND,
        CLOSED_FIST] OPEN_HAND
     < firstIndex
       [OPEN_HAND, CLOSED_FIST, OPEN_HAND, CLOSED_FIST, OPEN_HAND, CLOSED_FIST, OPEN_HAND,
        CLOSED_FIST] CLOSED_FIST"
  by code_simp

text \<open>
  C2, amended. Every push returns a gesture of the window after the push whose count is
  maximal, and every other gesture of the window with the same count occurs for the first
  time before it: of the gestures tied at the maximum, the one whose first occurrence is
  latest wins. Pushing G eight times onto a history of at most eight samples yields G, and
  so pushing A five times and then B three times yields A.
\<close>

theorem stableGesture_plurality_latest_tie:
  "(\<exists>r. stableGesture (pushHistory h g) = Inr r
       \<and> r \<in> set (pushHistory h g)
       \<and> (\<forall>k. count_list (pushHistory h g) k \<le> count_list (pushHistory h g) r)
       \<and> (\<forall>k\<in>set (pushHistory h g).
             k \<noteq> r \<and> count_list (pushHistory h g) k = count_list (pushHistory h g) r
             \<longrightarrow> firstIndex (pushHistory h g) k < firstIndex (pushHistory h g) r))
   \<and> (length h \<le> 8 \<longrightarrow>
        stableGesture (foldl pushHistory h (replicate 8 G)) = Inr G
        \<and> foldl pushHistory h [A, A, A, A, A, B, B, B] = [A, A, A, A, A, B, B, B]
        \<and> stableGesture (foldl pushHistory h [A, A, A, A, A, B, B, B]) = Inr A)"
proof (intro conjI impI)
  show "\<exists>r. stableGesture (pushHistory h g) = Inr r
       \<and> r \<in> set (pushHistory h g)
       \<and> (\<forall>k. count_list (pushHistory h g) k \<le> count_list (pushHistory h g) r)
       \<and> (\<forall>k\<in>set (pushHistory h g).
             k \<noteq> r \<and> count_list (pushHistory h g) k = count_list (pushHistory h g) r
             \<longrightarrow> firstIndex (pushHistory h g) k < firstIndex (pushHistory h g) r)"
    by (rule stableGesture_plurality) (rule pushHistory_nonempty)
next
  assume h: "length h \<le> 8"
  have "foldl pushHistory h (replicate 8 G) = replicate 8 G"
    using h by (intro foldl_pushHistory_eight) simp_all
  then show "stableGesture (foldl pushHistory h (replicate 8 G)) = Inr G"
    by (simp add: stable_replicate)
  show w: "foldl pushHistory h [A, A, A, A, A, B, B, B] = [A, A, A, A, A, B, B, B]"
    using h by (intro foldl_pushHistory_eight) simp_all
  show "stableGesture (foldl pushHistory h [A, A, A, A, A, B, B, B]) = Inr A"
    unfolding w by (rule stableGesture_five_three)
qed

theorem stableGesture_plurality_latest_tie_witness:
  "length [OPEN_HAND] \<le> 8
   \<and> stableGesture (pushHistory [OPEN_HAND] CLOSED_FIST) = Inr CLOSED_FIST
   \<and> firstIndex (pushHistory [OPEN_HAND] CLOSED_FIST) OPEN_HAND
       < firstIndex (pushHistory [OPEN_HAND] CLOSED_FIST) CLOSED_FIST
   \<and> stableGesture (foldl pushHistory [OPEN_HAND] (replicate 8 HEART)) = Inr HEART
   \<and> stableGesture
       (foldl pushHistory [OPEN_HAND]
          [VICTORY, VICTORY, VICTORY, VICTORY, VICTORY, PINCH, PINCH, PINCH])
     = Inr VICTORY"
proof -
  have w: "pushHistory [OPEN_HAND] CLOSED_FIST = [OPEN_HAND, CLOSED_FIST]"
    by (simp add: pushHistory_def)
  have c: "count_list [OPEN_HAND, CLOSED_FIST] OPEN_HAND = count_list [OPEN_HAND, CLOSED_FIST] CLOSED_FIST"
    by simp
  from stableGesture_plurality_latest_tie [of "[OPEN_HAND]" CLOSED_FIST HEART VICTORY PINCH]
  obtain r where r: "stableGesture [OPEN_HAND, CLOSED_FIST] = Inr r"
    and tie: "\<forall>k\<in>set [OPEN_HAND, CLOSED_FIST].
        k \<noteq> r \<and> count_list [OPEN_HAND, CLOSED_FIST] k = count_list [OPEN_HAND, CLOSED_FIST] r
        \<longrightarrow> firstIndex [OPEN_HAND, CLOSED_FIST] k < firstIndex [OPEN_HAND, CLOSED_FIST] r"
    and rest: "stableGesture (foldl pushHistory [OPEN_HAND] (replicate 8 HEART)) = Inr HEART"
      "stableGesture
         (foldl pushHistory [OPEN_HAND]
            [VICTORY, VICTORY, VICTORY, VICTORY, VICTORY, PINCH, PINCH, PINCH])
       = Inr VICTORY"
    unfolding w by auto
  have "stableGesture [OPEN_HAND, CLOSED_FIST] = Inr CLOSED_FIST" by code_simp
  with r have "r = CLOSED_FIST" by simp
  with tie c have "firstIndex [OPEN_HAND, CLOSED_FIST] OPEN_HAND
       < firstIndex [OPEN_HAND, CLOSED_FIST] CLOSED_FIST"
    by simp
  with r \<open>r = CLOSED_FIST\<close> rest show ?thesis unfolding w by simp
qed

subsection \<open>C3: mode transitions\<close>

text \<open>
  C3. On a processed call with a hand of 21 landmarks, let the stable gesture be the vote
  over the window after the push. A transition is committed exactly when
  \<open>now - lastGestureTime > 600\<close>, the stable gesture has a target in the table
  HEART to LOVE, VICTORY to TEXT, CLOSED_FIST to TREE, OPEN_HAND to SCATTER, and the target
  differs from the current mode. Then the mode becomes that one target and
  \<open>lastGestureTime\<close> becomes \<open>now\<close>; otherwise both stay as they were. PINCH and
  NONE never change either.
\<close>

theorem mode_transition_controller:
  assumes "processed f r" and "hands f = landmarks # others" and "21 \<le> length landmarks"
  shows "\<exists>stableG r' st'.
      stableGesture (pushHistory (gestureHistory r) (detectedGesture landmarks)) = Inr stableG
    \<and> predictWebcam f (r, st) = Inr (r', st')
    \<and> (if commits stableG (mode st) (dateNow f) (lastGestureTime r)
       then targetMode stableG = Some (mode st') \<and> lastGestureTime r' = dateNow f
       else mode st' = mode st \<and> lastGestureTime r' = lastGestureTime r)
    \<and> (stableG = PINCH \<or> stableG = NONE
         \<longrightarrow> mode st' = mode st \<and> lastGestureTime r' = lastGestureTime r)"
proof -
  obtain stableG where
    sg: "stableGesture (pushHistory (gestureHistory r) (detectedGesture landmarks)) = Inr stableG"
    using stableGesture_push_ex by blast
  let ?r1 = "r\<lparr>lastVideoTime := currentTime f\<rparr>"
  have sg1: "stableGesture (pushHistory (gestureHistory ?r1) (detectedGesture landmarks)) = Inr stableG"
    using sg by simp
  note res = handPresent_result [OF assms(3) sg1, of "dateNow f" st]
  have pw: "predictWebcam f (r, st) = handPresent landmarks (dateNow f) (?r1, st)"
    by (rule predictWebcam_present [OF assms(1,2)])
  have no: "\<not> commits stableG (mode st) (dateNow f) (lastGestureTime r)"
    if "stableG = PINCH \<or> stableG = NONE"
    using that by (auto simp: commits_def)
  show ?thesis
  proof (cases "commits stableG (mode st) (dateNow f) (lastGestureTime r)")
    case True
    then obtain m where m: "targetMode stableG = Some m"
      by (auto simp: commits_def split: option.splits)
    show ?thesis
      using sg True m no unfolding pw res
      by (intro exI[of _ stableG]) (auto simp: transition_commits setMode_def updateHandData_def)
  next
    case False
    show ?thesis
      using sg False unfolding pw res
      by (intro exI[of _ stableG]) (auto simp: transition_commits updateHandData_def)
  qed
qed

text \<open>
  The first frame with an open hand, at time 1000: the mode goes from TREE to SCATTER.
\<close>

theorem mode_transition_controller_witness:
  "processed (cameraFrame 0 1000 [openHand]) initialRefs
   \<and> hands (cameraFrame 0 1000 [openHand]) = openHand # []
   \<and> 21 \<le> length openHand
   \<and> commits OPEN_HAND (mode useStore) 1000 (lastGestureTime initialRefs)
   \<and> (\<exists>r' st'. predictWebcam (cameraFrame 0 1000 [openHand]) (initialRefs, useStore) = Inr (r', st')
        \<and> mode st' = SCATTER \<and> lastGestureTime r' = 1000)"
proof -
  have p: "processed (cameraFrame 0 1000 [openHand]) initialRefs"
    by (simp add: processed_cameraFrame initialRefs_def)
  have h: "hands (cameraFrame 0 1000 [openHand]) = openHand # []"
    by (simp add: cameraFrame_def)
  have l: "21 \<le> length openHand" by (simp add: length_examples)
  have w: "pushHistory (gestureHistory initialRefs) (detectedGesture openHand) = [OPEN_HAND]"
    by (simp add: initialRefs_def detectedGesture_openHand pushHistory_def)
  have c: "commits OPEN_HAND (mode useStore) 1000 (lastGestureTime initialRefs)"
    by (simp add: commits_def useStore_def initialRefs_def)
  have d: "dateNow (cameraFrame 0 1000 [openHand]) = 1000" by (simp add: cameraFrame_def)
  from mode_transition_controller [OF p h l, of useStore]
  show ?thesis using p h l c unfolding w stableGesture_single d by auto
qed

subsection \<open>C4: no hand\<close>

text \<open>
  C4. On a processed call without a hand the published gesture is NONE, whatever the
  window holds, and the published cursor and the smoothed cursor are the ones of the call
  before.
\<close>

theorem absent_hand_reports_NONE:
  assumes "processed f r" and "hands f = []"
  shows "\<exists>r' st'. predictWebcam f (r, st) = Inr (r', st')
    \<and> gesture (handData st') = NONE
    \<and> hx (handData st') = hx (handData st) \<and> hy (handData st') = hy (handData st)
    \<and> smoothedX r' = smoothedX r \<and> smoothedY r' = smoothedY r"
  unfolding predictWebcam_absent [OF assms]
  by (simp add: updateHandData_def spread_def)

text \<open>
  With the window full of HEART and HEART published, the next call without a hand
  publishes NONE and keeps the cursor at \<open>(0.25, 0.75)\<close>.
\<close>

theorem absent_hand_reports_NONE_witness:
  "processed (cameraFrame 1 2000 []) (fst afterHeart)
   \<and> hands (cameraFrame 1 2000 []) = []
   \<and> gestureHistory (fst afterHeart) = replicate 8 HEART
   \<and> (\<exists>r' st'. predictWebcam (cameraFrame 1 2000 []) afterHeart = Inr (r', st')
        \<and> gesture (handData st') = NONE \<and> hx (handData st') = 0.25 \<and> hy (handData st') = 0.75
        \<and> smoothedX r' = 0.25 \<and> smoothedY r' = 0.75)"
proof -
  have p: "processed (cameraFrame 1 2000 []) (fst afterHeart)"
    by (simp add: processed_cameraFrame afterHeart_def)
  have h: "hands (cameraFrame 1 2000 []) = []" by (simp add: cameraFrame_def)
  have a: "afterHeart = (fst afterHeart, snd afterHeart)" by simp
  from absent_hand_reports_NONE [OF p h, of "snd afterHeart"]
  show ?thesis using p h by (subst a) (simp add: afterHeart_def)
qed

subsection \<open>C5: what enters the window\<close>

text \<open>
  C5 does not hold as stated: a processed call without a hand appends nothing. From the
  initial state the window is still empty after such a call; it is not \<open>[NONE]\<close>.
\<close>

theorem absent_hand_pushes_nothing:
  "processed (cameraFrame 0 1000 []) initialRefs
   \<and> hands (cameraFrame 0 1000 []) = []
   \<and> predictWebcam (cameraFrame 0 1000 []) (initialRefs, useStore)
       = Inr (initialRefs\<lparr>lastVideoTime := 0\<rparr>, useStore)
   \<and> gestureHistory (initialRefs\<lparr>lastVideoTime := 0\<rparr>) = []
   \<and> gestureHistory (initialRefs\<lparr>lastVideoTime := 0\<rparr>) \<noteq> gestureHistory initialRefs @ [NONE]"
  by (simp add: predictWebcam_def handAbsent_def processed_def cameraFrame_def initialRefs_def
      useStore_def updateHandData_def spread_def)

text \<open>
  C5, amended. A processed call with a hand of 21 landmarks appends the classification of
  that hand to the window (and drops the oldest sample beyond eight); a processed call
  without a hand leaves the window as it is, so no NONE samples accumulate while the hand
  is away.
\<close>

theorem history_appended_only_when_hand_present:
  assumes "processed f r"
  shows "(hands f = [] \<longrightarrow>
           (\<exists>r' st'. predictWebcam f (r, st) = Inr (r', st')
              \<and> gestureHistory r' = gestureHistory r))
       \<and> (\<forall>landmarks others. hands f = landmarks # others \<and> 21 \<le> length landmarks \<longrightarrow>
           (\<exists>r' st'. predictWebcam f (r, st) = Inr (r', st')
              \<and> gestureHistory r' = pushHistory (gestureHistory r) (detectedGesture landmarks)))"
proof (intro conjI impI allI)
  assume "hands f = []"
  from predictWebcam_absent [OF assms this, of st]
  show "\<exists>r' st'. predictWebcam f (r, st) = Inr (r', st') \<and> gestureHistory r' = gestureHistory r"
    by simp
next
  fix landmarks others
  assume a: "hands f = landmarks # others \<and> 21 \<le> length landmarks"
  let ?r1 = "r\<lparr>lastVideoTime := currentTime f\<rparr>"
  obtain stableG where
    "stableGesture (pushHistory (gestureHistory ?r1) (detectedGesture landmarks)) = Inr stableG"
    using stableGesture_push_ex by blast
  from handPresent_result [OF _ this, of "dateNow f" st] a
  show "\<exists>r' st'. predictWebcam f (r, st) = Inr (r', st')
          \<and> gestureHistory r' = pushHistory (gestureHistory r) (detectedGesture landmarks)"
    unfolding predictWebcam_present [OF assms conjunct1 [OF a]] by simp
qed

theorem history_appended_only_when_hand_present_witness:
  "processed (cameraFrame 1 2000 []) (fst afterHeart)
   \<and> hands (cameraFrame 1 2000 []) = []
   \<and> (\<exists>r' st'. predictWebcam (cameraFrame 1 2000 []) afterHeart = Inr (r', st')
        \<and> gestureHistory r' = replicate 8 HEART)
   \<and> processed (cameraFrame 0 1000 [openHand]) initialRefs
   \<and> hands (cameraFrame 0 1000 [openHand]) = [openHand]
   \<and> 21 \<le> length openHand
   \<and> (\<exists>r' st'. predictWebcam (cameraFrame 0 1000 [openHand]) (initialRefs, useStore) = Inr (r', st')
        \<and> gestureHistory r' = [OPEN_HAND])"
proof -
  have p: "processed (cameraFrame 1 2000 []) (fst afterHeart)"
    by (simp add: processed_cameraFrame afterHeart_def)
  have h: "hands (cameraFrame 1 2000 []) = []" by (simp add: cameraFrame_def)
  have a: "afterHeart = (fst afterHeart, snd afterHeart)" by simp
  have one: "\<exists>r' st'. predictWebcam (cameraFrame 1 2000 []) afterHeart = Inr (r', st')
        \<and> gestureHistory r' = replicate 8 HEART"
    using history_appended_only_when_hand_present [OF p, of "snd afterHeart"] h
    by (subst a) (simp add: afterHeart_def)
  have p2: "processed (cameraFrame 0 1000 [openHand]) initialRefs"
    by (simp add: processed_cameraFrame initialRefs_def)
  have h2: "hands (cameraFrame 0 1000 [openHand]) = [openHand]"
    by (simp add: cameraFrame_def)
  have l: "21 \<le> length openHand" by (simp add: length_examples)
  have w: "pushHistory (gestureHistory initialRefs) (detectedGesture openHand) = [OPEN_HAND]"
    by (simp add: initialRefs_def detectedGesture_openHand pushHistory_def)
  have two: "\<exists>r' st'. predictWebcam (cameraFrame 0 1000 [openHand]) (initialRefs, useStore) = Inr (r', st')
        \<and> gestureHistory r' = [OPEN_HAND]"
    using history_appended_only_when_hand_present [OF p2, of useStore] h2 l unfolding w [symmetric]
    by blast
  from p h one p2 h2 l two show ?thesis by blast
qed

subsection \<open>C6: who changes the mode\<close>

text \<open>
  C6 does not hold as stated: the button \<^verbatim>\<open>Text (Victory)\<close> of \<^verbatim>\<open>App\<close> calls
  \<^verbatim>\<open>setMode(AppMode.TEXT)\<close> itself. From the initial state it changes the mode from TREE
  to TEXT with no frame, no gesture and no cooldown, and leaves \<open>lastGestureTime\<close> alone.
\<close>

theorem mode_button_bypasses_controller:
  "step ClickText (initialRefs, useStore) = Inr (initialRefs, useStore\<lparr>mode := TEXT\<rparr>)
   \<and> mode useStore = TREE
   \<and> mode (useStore\<lparr>mode := TEXT\<rparr>) = TEXT"
  by (simp add: setMode_def useStore_def)

text \<open>
  C6, amended. The mode changes only through a committed, debounced transition of the
  frame loop (which also stores \<open>now\<close> in \<open>lastGestureTime\<close>) or through one of the
  three mode buttons Tree, Text and Scatter, which set the mode at once and do not touch
  the refs of the frame loop. No other write to the store changes the mode.
\<close>

theorem mode_changes_by_controller_or_buttons:
  assumes "step e (r, st) = Inr (r', st')" and "mode st' \<noteq> mode st"
  shows "(\<exists>f landmarks others stableG.
            e = Frame f \<and> processed f r \<and> hands f = landmarks # others
          \<and> stableGesture (pushHistory (gestureHistory r) (detectedGesture landmarks)) = Inr stableG
          \<and> commits stableG (mode st) (dateNow f) (lastGestureTime r)
          \<and> targetMode stableG = Some (mode st')
          \<and> lastGestureTime r' = dateNow f)
       \<or> (e = ClickTree \<and> mode st' = TREE \<and> r' = r)
       \<or> (e = ClickText \<and> mode st' = TEXT \<and> r' = r)
       \<or> (e = ClickScatter \<and> mode st' = SCATTER \<and> r' = r)"
proof (cases e)
  case (Frame f)
  with assms(1) have pw: "predictWebcam f (r, st) = Inr (r', st')" by simp
  from predictWebcam_cases [OF pw] assms(2)
  obtain landmarks others stableG where p: "processed f r" and h: "hands f = landmarks # others"
    and l: "21 \<le> length landmarks"
    and sg: "stableGesture (pushHistory (gestureHistory r) (detectedGesture landmarks)) = Inr stableG"
    by (auto simp: updateHandData_def)
  have hp: "handPresent landmarks (dateNow f) (r\<lparr>lastVideoTime := currentTime f\<rparr>, st) = Inr (r', st')"
    using predictWebcam_present [OF p h, of st] pw by simp
  have sg1: "stableGesture (pushHistory (gestureHistory (r\<lparr>lastVideoTime := currentTime f\<rparr>))
      (detectedGesture landmarks)) = Inr stableG"
    using sg by simp
  note m = handPresent_mode [OF hp sg1]
  from m(1) assms(2) have c: "commits stableG (mode st) (dateNow f) (lastGestureTime r)"
    by (auto split: if_splits)
  from m(3) c obtain target where t: "targetMode stableG = Some target" by auto
  from m(1) c t have "targetMode stableG = Some (mode st')" by simp
  moreover from m(2) c have "lastGestureTime r' = dateNow f" by simp
  ultimately have "commits stableG (mode st) (dateNow f) (lastGestureTime r)"
    "targetMode stableG = Some (mode st')" "lastGestureTime r' = dateNow f"
    using c by simp_all
  with Frame p h sg show ?thesis by blast
next
  case ClickTree
  with assms show ?thesis by (auto simp: setMode_def)
next
  case ClickText
  with assms show ?thesis by (auto simp: setMode_def)
next
  case ClickScatter
  with assms show ?thesis by (auto simp: setMode_def)
next
  case (Upload x)
  with assms show ?thesis by (auto simp: addPhotos_def)
next
  case (Focus x)
  with assms show ?thesis by (auto simp: setFocusedPhotoId_def)
next
  case (Describe x y)
  with assms show ?thesis by (auto simp: updatePhotoDescription_def)
qed

theorem mode_changes_by_controller_or_buttons_witness:
  "\<exists>r' st'. step (Frame (cameraFrame 0 1000 [openHand])) (initialRefs, useStore) = Inr (r', st')
     \<and> mode st' \<noteq> mode useStore
     \<and> mode st' = SCATTER
     \<and> lastGestureTime r' = 1000"
proof -
  from openHand_first_frame obtain r' st'
    where s: "step (Frame (cameraFrame 0 1000 [openHand])) (initialRefs, useStore) = Inr (r', st')"
      and m: "mode st' = SCATTER"
    by auto
  have ne: "mode st' \<noteq> mode useStore" using m by (simp add: useStore_def)
  from mode_changes_by_controller_or_buttons [OF s ne]
  have "lastGestureTime r' = 1000" by (auto simp: cameraFrame_def)
  with s m ne show ?thesis by blast
qed

subsection \<open>C7: the cursor stays in the unit square\<close>



subsection \<open>C8: the smoother contracts\<close>

text \<open>
  C8 does not hold as stated: the update is computed in doubles, and rounding moves a
  cursor that already equals the raw position. With the smoothed cursor at
  \<open>(0.5, 0.62)\<close> and the wrist at \<open>x = 0.5\<close>, \<open>y = 0.62\<close> the mirrored raw position is
  the smoothed one, the factor is 0.1, and the update returns \<open>y = 0.6200000000000001\<close>:
  \<open>0.62 * 0.9 + 0.62 * 0.1\<close> lies halfway between two doubles and rounds to the even
  one above \<open>0.62\<close>.
\<close>

theorem smoother_not_exactly_fixed:
  "subOp (ieee roundedHypot) 1 (1 / 2) = 1 / 2
   \<and> smoothIn (ieee roundedHypot) (1 / 2, double 0.62) \<lparr>lx = 1 / 2, ly = double 0.62, lz = 0\<rparr>
       = (1 / 2, 698057942242427 / 2 ^ 50)
   \<and> double 0.62 = 5584463537939415 / 2 ^ 53
   \<and> (698057942242427 / 2 ^ 50 :: real) \<noteq> 5584463537939415 / 2 ^ 53"
proof -
  have "subOp (ieee roundedHypot) 1 (1 / 2) = 1 / 2"
    using double_half by (simp add: ieee_simps)
  then show ?thesis using smoothIn_example double_0_62 by simp
qed

text \<open>
  C8, amended. For wrist and cursor coordinates in \<open>[0, 1]\<close>, with the raw position
  \<open>(double (1 - x), y)\<close> of the wrist and any \<^verbatim>\<open>Math.hypot\<close>: if the raw position equals
  the smoothed one, an update moves each smoothed coordinate by at most \<open>2 powr -45\<close>;
  in general one update multiplies the distance from the smoothed to the raw position by
  0.7 when the computed \<open>distMoved\<close> exceeds 0.05 and by 0.9 otherwise, up to an error of
  at most \<open>2 powr -44\<close>; and with the wrist held still the distance after \<open>n\<close> updates
  is at most \<open>0.9 ^ n\<close> times the first one plus \<open>2 powr -40\<close>.
  In exact arithmetic, where the smoother is the one of the frame loop, the three hold
  without the error terms: a cursor equal to \<open>(1 - x, y)\<close> stays as it is, the factor is
  exactly 0.7 or 0.9, the distance never grows and tends to 0.
\<close>

theorem smoother_contracts_up_to_rounding:
  fixes h :: "real \<Rightarrow> real \<Rightarrow> real" and w :: landmark and s :: "real \<times> real"
  shows
  "(0 \<le> lx w \<and> lx w \<le> 1 \<and> 0 \<le> ly w \<and> ly w \<le> 1
    \<and> 0 \<le> fst s \<and> fst s \<le> 1 \<and> 0 \<le> snd s \<and> snd s \<le> 1 \<longrightarrow>
      (double (1 - lx w) = fst s \<and> ly w = snd s \<longrightarrow>
         \<bar>fst (smoothIn (ieee h) s w) - fst s\<bar> \<le> 1 / 2 ^ 45
         \<and> \<bar>snd (smoothIn (ieee h) s w) - snd s\<bar> \<le> 1 / 2 ^ 45)
      \<and> \<bar>hypot (double (1 - lx w) - fst (smoothIn (ieee h) s w))
                (ly w - snd (smoothIn (ieee h) s w))
            - (if h (double (double (1 - lx w) - fst s)) (double (ly w - snd s)) > double 0.05
               then 0.7 else 0.9)
              * hypot (double (1 - lx w) - fst s) (ly w - snd s)\<bar> \<le> 1 / 2 ^ 44
      \<and> (\<forall>n. hypot (double (1 - lx w) - fst (((\<lambda>s. smoothIn (ieee h) s w) ^^ n) s))
                     (ly w - snd (((\<lambda>s. smoothIn (ieee h) s w) ^^ n) s))
                 \<le> 0.9 ^ n * hypot (double (1 - lx w) - fst s) (ly w - snd s) + 1 / 2 ^ 40))
   \<and> smoothIn exact s w = smooth s w
   \<and> (1 - lx w = fst s \<and> ly w = snd s \<longrightarrow> smooth s w = s)
   \<and> hypot (1 - lx w - fst (smooth s w)) (ly w - snd (smooth s w))
       = (if hypot (1 - lx w - fst s) (ly w - snd s) > 0.05 then 0.7 else 0.9)
         * hypot (1 - lx w - fst s) (ly w - snd s)
   \<and> hypot (1 - lx w - fst (smooth s w)) (ly w - snd (smooth s w))
       \<le> hypot (1 - lx w - fst s) (ly w - snd s)
   \<and> (\<lambda>n. hypot (1 - lx w - fst (((\<lambda>s. smooth s w) ^^ n) s))
                 (ly w - snd (((\<lambda>s. smooth s w) ^^ n) s))) \<longlonglongrightarrow> 0"
proof (intro conjI impI allI)
  assume a: "0 \<le> lx w \<and> lx w \<le> 1 \<and> 0 \<le> ly w \<and> ly w \<le> 1
    \<and> 0 \<le> fst s \<and> fst s \<le> 1 \<and> 0 \<le> snd s \<and> snd s \<le> 1"
  then have w: "0 \<le> lx w" "lx w \<le> 1" "0 \<le> ly w" "ly w \<le> 1" by simp_all
  have "(1::real) / 2 ^ 49 \<le> 1 / 2" by simp
  with raw_bound [OF w(1,2)] have rx: "\<bar>double (1 - lx w)\<bar> \<le> 3 / 2" by linarith
  have "\<bar>1 - lx w\<bar> \<le> 8" using w by simp
  from double_near [OF this] have rx': "\<bar>double (1 - lx w) - (1 - lx w)\<bar> \<le> 1 / 2" by simp
  have s: "\<bar>double (1 - lx w) - fst s\<bar> \<le> 3 / 2" "\<bar>ly w - snd s\<bar> \<le> 3 / 2"
    using a rx' by linarith+
  have b: "\<bar>fst s\<bar> \<le> 3" "\<bar>snd s\<bar> \<le> 3" using a by simp_all
  note st = smoothIn_ieee_step [OF w b, of h]
  show "\<bar>hypot (double (1 - lx w) - fst (smoothIn (ieee h) s w))
                (ly w - snd (smoothIn (ieee h) s w))
            - (if h (double (double (1 - lx w) - fst s)) (double (ly w - snd s)) > double 0.05
               then 0.7 else 0.9)
              * hypot (double (1 - lx w) - fst s) (ly w - snd s)\<bar> \<le> 1 / 2 ^ 44"
    by (rule st(3))
  {
    assume e: "double (1 - lx w) = fst s \<and> ly w = snd s"
    from st(1) e show "\<bar>fst (smoothIn (ieee h) s w) - fst s\<bar> \<le> 1 / 2 ^ 45"
      by (simp add: abs_minus_commute)
    from st(2) e show "\<bar>snd (smoothIn (ieee h) s w) - snd s\<bar> \<le> 1 / 2 ^ 45"
      by (simp add: abs_minus_commute)
  }
  {
    fix n
    define p :: real where "p = 0.9 ^ n"
    define d0 where "d0 = hypot (double (1 - lx w) - fst s) (ly w - snd s)"
    have p: "0 \<le> p" by (simp add: p_def)
    from smoothIn_ieee_iterate [OF w s, where h = h and n = n]
    have "hypot (double (1 - lx w) - fst (((\<lambda>s. smoothIn (ieee h) s w) ^^ n) s))
               (ly w - snd (((\<lambda>s. smoothIn (ieee h) s w) ^^ n) s))
           \<le> p * d0 + 10 / 2 ^ 44 * (1 - p)"
      by (simp add: p_def d0_def)
    moreover have "10 / 2 ^ 44 * (1 - p) \<le> 10 / 2 ^ 44 * 1"
      using p by (intro mult_left_mono) simp_all
    moreover have "(10::real) / 2 ^ 44 * 1 \<le> 1 / 2 ^ 40" by simp
    ultimately show "hypot (double (1 - lx w) - fst (((\<lambda>s. smoothIn (ieee h) s w) ^^ n) s))
                     (ly w - snd (((\<lambda>s. smoothIn (ieee h) s w) ^^ n) s))
                 \<le> 0.9 ^ n * hypot (double (1 - lx w) - fst s) (ly w - snd s) + 1 / 2 ^ 40"
      unfolding p_def d0_def by linarith
  }
next
  show "smoothIn exact s w = smooth s w" by (rule smoothIn_exact)
next
  assume "1 - lx w = fst s \<and> ly w = snd s"
  then show "smooth s w = s" by (simp add: smooth_fixed rawX_def rawY_def)
next
  show "hypot (1 - lx w - fst (smooth s w)) (ly w - snd (smooth s w))
       = (if hypot (1 - lx w - fst s) (ly w - snd s) > 0.05 then 0.7 else 0.9)
         * hypot (1 - lx w - fst s) (ly w - snd s)"
    using distMoved_smooth_factor [of s w] by (simp add: distMoved_def rawX_def rawY_def)
  have "0.9 * distMoved s w \<le> distMoved s w" using distMoved_nonneg [of s w] by simp
  with distMoved_smooth_le [of s w]
  show "hypot (1 - lx w - fst (smooth s w)) (ly w - snd (smooth s w))
       \<le> hypot (1 - lx w - fst s) (ly w - snd s)"
    by (simp add: distMoved_def rawX_def rawY_def)
  show "(\<lambda>n. hypot (1 - lx w - fst (((\<lambda>s. smooth s w) ^^ n) s))
                 (ly w - snd (((\<lambda>s. smooth s w) ^^ n) s))) \<longlonglongrightarrow> 0"
    using distMoved_tendsto_zero [of w s] by (simp add: distMoved_def rawX_def rawY_def)
qed

theorem smoother_contracts_up_to_rounding_witness:
  "0 \<le> (1 / 2 :: real) \<and> (1 / 2 :: real) \<le> 1 \<and> 0 \<le> double 0.62 \<and> double 0.62 \<le> 1
   \<and> double (1 - 1 / 2) = 1 / 2
   \<and> snd (smoothIn (ieee roundedHypot) (1 / 2, double 0.62)
            \<lparr>lx = 1 / 2, ly = double 0.62, lz = 0\<rparr>) = 698057942242427 / 2 ^ 50
   \<and> \<bar>698057942242427 / 2 ^ 50 - double 0.62\<bar> \<le> 1 / 2 ^ 45
   \<and> 1 - 0.3 = (0.7 :: real)
   \<and> smooth (0.7, 0.62) \<lparr>lx = 0.3, ly = 0.62, lz = 0\<rparr> = (0.7, 0.62)"
proof -
  let ?w = "\<lparr>lx = 1 / 2, ly = double 0.62, lz = 0\<rparr>"
  let ?s = "(1 / 2 :: real, double 0.62)"
  have r: "0 \<le> double 0.62" "double 0.62 \<le> 1" unfolding double_0_62 by simp_all
  have h: "double (1 - 1 / 2) = 1 / 2" using double_half by simp
  have hyp: "0 \<le> lx ?w \<and> lx ?w \<le> 1 \<and> 0 \<le> ly ?w \<and> ly ?w \<le> 1
    \<and> 0 \<le> fst ?s \<and> fst ?s \<le> 1 \<and> 0 \<le> snd ?s \<and> snd ?s \<le> 1"
    using r by simp
  have eq: "double (1 - lx ?w) = fst ?s \<and> ly ?w = snd ?s" using h by simp
  from smoother_contracts_up_to_rounding [of ?w ?s roundedHypot] hyp eq
  have "\<bar>snd (smoothIn (ieee roundedHypot) ?s ?w) - snd ?s\<bar> \<le> 1 / 2 ^ 45" by blast
  then have one: "\<bar>698057942242427 / 2 ^ 50 - double 0.62\<bar> \<le> 1 / 2 ^ 45"
    unfolding smoothIn_example by simp
  have m: "1 - lx \<lparr>lx = 0.3, ly = 0.62, lz = 0\<rparr> = fst (0.7 :: real, 0.62 :: real)
      \<and> ly \<lparr>lx = 0.3, ly = 0.62, lz = 0\<rparr> = snd (0.7 :: real, 0.62 :: real)"
    by simp
  from smoother_contracts_up_to_rounding
    [of "\<lparr>lx = 0.3, ly = 0.62, lz = 0\<rparr>" "(0.7, 0.62)" roundedHypot] m
  have two: "smooth (0.7, 0.62) \<lparr>lx = 0.3, ly = 0.62, lz = 0\<rparr> = (0.7, 0.62)" by blast
  have v: "snd (smoothIn (ieee roundedHypot) ?s ?w) = 698057942242427 / 2 ^ 50"
    unfolding smoothIn_example by simp
  from r h v one two show ?thesis by simp
qed

subsection \<open>C9: the window holds at most eight samples\<close>

text \<open>
  C9. Starting from the empty history, after any sequence of pushes the window is the
  last eight samples pushed (all of them when there are fewer), so its length is at most
  8. A push onto a history of at most eight samples appends the new sample and drops the
  oldest one when the history was full. After any sequence of events from the initial
  state the history of the frame loop has at most 8 entries.
\<close>

theorem gestureHistory_at_most_eight:
  "length (foldl pushHistory [] gs) \<le> 8
   \<and> foldl pushHistory [] gs = drop (length gs - 8) gs
   \<and> (length h \<le> 8 \<longrightarrow>
        pushHistory h g = (if length h = 8 then tl h @ [g] else h @ [g])
        \<and> length (pushHistory h g) \<le> 8)
   \<and> (run es (initialRefs, useStore) = Inr (r, st) \<longrightarrow> length (gestureHistory r) \<le> 8)"
proof (intro conjI impI)
  assume h: "length h \<le> 8"
  then show "length (pushHistory h g) \<le> 8" by (rule length_pushHistory)
  show "pushHistory h g = (if length h = 8 then tl h @ [g] else h @ [g])"
  proof (cases "length h = 8")
    case True
    then have "h \<noteq> []" by auto
    with True show ?thesis by (simp add: pushHistory_full)
  next
    case False
    with h have "length h < 8" by simp
    with False show ?thesis by (simp add: pushHistory_short)
  qed
next
  show eq: "foldl pushHistory [] gs = drop (length gs - 8) gs"
    using foldl_pushHistory [of "[]" gs] by simp
  show "length (foldl pushHistory [] gs) \<le> 8" unfolding eq by simp
  assume "run es (initialRefs, useStore) = Inr (r, st)"
  from run_history_length [OF this] show "length (gestureHistory r) \<le> 8"
    by (simp add: initialRefs_def)
qed

theorem gestureHistory_at_most_eight_witness:
  "length (foldl pushHistory [] (replicate 10 HEART)) \<le> 8
   \<and> length [HEART, HEART, HEART, HEART, HEART, HEART, HEART, HEART] \<le> 8
   \<and> pushHistory [HEART, HEART, HEART, HEART, HEART, HEART, HEART, HEART] NONE
       = [HEART, HEART, HEART, HEART, HEART, HEART, HEART, NONE]
   \<and> (\<exists>r st. run [Frame (cameraFrame 0 1000 [openHand])] (initialRefs, useStore) = Inr (r, st)
        \<and> length (gestureHistory r) \<le> 8)"
proof -
  from openHand_first_frame obtain r st
    where rn: "run [Frame (cameraFrame 0 1000 [openHand])] (initialRefs, useStore) = Inr (r, st)"
    unfolding run_single by auto
  note inst = gestureHistory_at_most_eight
    [of "replicate 10 HEART" "[HEART, HEART, HEART, HEART, HEART, HEART, HEART, HEART]" NONE
        "[Frame (cameraFrame 0 1000 [openHand])]" r st]
  have full: "length [HEART, HEART, HEART, HEART, HEART, HEART, HEART, HEART] \<le> 8" by simp
  from inst full
  have "pushHistory [HEART, HEART, HEART, HEART, HEART, HEART, HEART, HEART] NONE
       = [HEART, HEART, HEART, HEART, HEART, HEART, HEART, NONE]"
    by simp
  with inst rn full show ?thesis by blast
qed

subsection \<open>C10: HEART and VICTORY exclude each other\<close>



end
